theory Spec2Isabelle
  imports Complex_Main
begin

section \<open>Numeric model\<close>

text \<open>
  The program computes with IEEE doubles. Rounding and overflow are abstracted away: a
  finite double is a \<^typ>\<open>real\<close>. What is kept is the difference between the two kinds
  of arithmetic the source mixes.

  \<^item> Plain Python scalars (the arguments \<open>Vinf\<close>, \<open>cylinderRadius\<close>, \<open>strength\<close>, and
    \<open>np.pi\<close>, which is a Python float): a division by zero raises
    \<open>ZeroDivisionError\<close>.
  \<^item> numpy values (array elements and the results of \<open>np.sqrt\<close>, \<open>np.arcsin\<close>, ...):
    nothing raises; a singular operation yields \<open>nan\<close> or \<open>inf\<close>. Such a value is
    \<open>None\<close> here, a finite one is \<open>Some x\<close>. Every operation the program applies to
    a numpy value (\<open>+\<close>, \<open>-\<close>, \<open>*\<close>, division by a finite value, \<open>sqrt\<close>, \<open>cos\<close>,
    \<open>sin\<close>, \<open>log\<close>) maps a non-finite argument to a non-finite result, so \<open>None\<close> is
    absorbing.
\<close>

type_synonym npfloat = "real option"

datatype error = ValueError string | ZeroDivisionError

definition py_div :: "real \<Rightarrow> real \<Rightarrow> error + real" where
  "py_div a b = (if b = 0 then Inl ZeroDivisionError else Inr (a / b))"

fun np_add :: "npfloat \<Rightarrow> npfloat \<Rightarrow> npfloat" where
  "np_add (Some a) (Some b) = Some (a + b)"
| "np_add _ _ = None"

fun np_sub :: "npfloat \<Rightarrow> npfloat \<Rightarrow> npfloat" where
  "np_sub (Some a) (Some b) = Some (a - b)"
| "np_sub _ _ = None"

fun np_mul :: "npfloat \<Rightarrow> npfloat \<Rightarrow> npfloat" where
  "np_mul (Some a) (Some b) = Some (a * b)"
| "np_mul _ _ = None"

fun np_div :: "npfloat \<Rightarrow> npfloat \<Rightarrow> npfloat" where
  "np_div (Some a) (Some b) = (if b = 0 then None else Some (a / b))"
| "np_div _ _ = None"

fun np_neg :: "npfloat \<Rightarrow> npfloat" where
  "np_neg (Some a) = Some (- a)"
| "np_neg None = None"

fun np_sqrt :: "npfloat \<Rightarrow> npfloat" where
  "np_sqrt (Some a) = (if a < 0 then None else Some (sqrt a))"
| "np_sqrt None = None"

fun np_log :: "npfloat \<Rightarrow> npfloat" where
  "np_log (Some a) = (if a \<le> 0 then None else Some (ln a))"
| "np_log None = None"

fun np_cos :: "npfloat \<Rightarrow> npfloat" where
  "np_cos (Some a) = Some (cos a)"
| "np_cos None = None"

fun np_sin :: "npfloat \<Rightarrow> npfloat" where
  "np_sin (Some a) = Some (sin a)"
| "np_sin None = None"

fun np_arcsin :: "npfloat \<Rightarrow> npfloat" where
  "np_arcsin (Some a) = (if - 1 \<le> a \<and> a \<le> 1 then Some (arcsin a) else None)"
| "np_arcsin None = None"

text \<open>\<open>np.arctan2(y, x)\<close> on finite arguments: the angle of the point \<open>(x, y)\<close> in
  \<open>(-pi, pi]\<close>, and \<open>0\<close> at the origin.\<close>

definition arctan2 :: "real \<Rightarrow> real \<Rightarrow> real" where
  "arctan2 y x =
     (if 0 < x then arctan (y / x)
      else if x < 0 then (if 0 \<le> y then arctan (y / x) + pi else arctan (y / x) - pi)
      else if 0 < y then pi / 2
      else if y < 0 then - (pi / 2)
      else 0)"

text \<open>\<open>np.linspace(start, stop, num)\<close> with the default \<open>endpoint=True\<close>: \<open>num\<close> samples
  with step \<open>(stop - start) / (num - 1)\<close>, the last one set to \<open>stop\<close> itself.\<close>

definition linspace :: "real \<Rightarrow> real \<Rightarrow> nat \<Rightarrow> real list" where
  "linspace start stop num =
     (if num = 0 then []
      else if num = 1 then [start]
      else map (\<lambda>i. start + real i * ((stop - start) / real (num - 1))) [0..<num - 1] @ [stop])"

text \<open>\<open>np.meshgrid(x, y)\<close>: two arrays of \<open>len(y)\<close> rows and \<open>len(x)\<close> columns.\<close>

definition meshgrid :: "real list \<Rightarrow> real list \<Rightarrow> real list list \<times> real list list" where
  "meshgrid x y = (map (\<lambda>_. x) y, map (\<lambda>yj. map (\<lambda>_. yj) x) y)"

text \<open>An elementwise binary operation on two 2-D arrays of the same shape.\<close>

definition map2d :: "('a \<Rightarrow> 'b \<Rightarrow> 'c) \<Rightarrow> 'a list list \<Rightarrow> 'b list list \<Rightarrow> 'c list list" where
  "map2d f A B = map2 (map2 f) A B"

section \<open>The rotating-cylinder solver (\<open>plotRotatingCylinder\<close>)\<close>

subsection \<open>Sanity check\<close>

definition sanity_check :: "real \<times> real \<Rightarrow> real \<times> real \<Rightarrow> real \<Rightarrow> real \<Rightarrow> error + unit" where
  "sanity_check Lx Ly Vinf cylinderRadius =
     (if fst Lx > snd Lx then
        Inl (ValueError ''Domain endpoints incorrectly defined: Lx[0] > Lx[1]'')
      else if fst Ly > snd Ly then
        Inl (ValueError ''Domain endpoints incorrectly defined: Ly[0] > Ly[1]'')
      else if Vinf < 0 then
        Inl (ValueError ''Freestream Velocity Magnitude is negative!'')
      else if cylinderRadius < 0 then
        Inl (ValueError ''Cylinder radius is negative!'')
      else Inr ())"

subsection \<open>Grid fields\<close>

record gridfields =
  Vr :: npfloat
  Vtheta :: npfloat
  Vmag :: npfloat
  Vx :: npfloat
  Vy :: npfloat
  phi :: npfloat
  psi :: npfloat

text \<open>The vectorised assignments of the source, at one grid point \<open>(XX, YY)\<close>.\<close>

definition grid_point :: "real \<Rightarrow> real \<Rightarrow> real \<Rightarrow> real \<Rightarrow> real \<Rightarrow> gridfields" where
  "grid_point Vinf cylinderRadius strength XX YY =
     (let r = sqrt (XX * XX + YY * YY);
          theta = arctan2 YY XX;
          Vr = np_mul (np_mul (np_sub (Some 1)
                 (np_div (Some (cylinderRadius * cylinderRadius)) (Some (r * r))))
                 (Some Vinf)) (Some (cos theta));
          Vtheta = np_sub
                 (np_mul (np_mul (np_neg (np_add (Some 1)
                    (np_div (Some (cylinderRadius * cylinderRadius)) (Some (r * r)))))
                    (Some Vinf)) (Some (sin theta)))
                 (np_div (Some strength) (Some (2 * pi * r)));
          Vmag = np_sqrt (np_add (np_mul Vr Vr) (np_mul Vtheta Vtheta));
          Vx = np_sub (np_mul Vr (Some (cos theta))) (np_mul Vtheta (Some (sin theta)));
          Vy = np_add (np_mul Vr (Some (sin theta))) (np_mul Vtheta (Some (cos theta)));
          phi = np_sub
                 (np_mul (Some (Vinf * r * cos theta)) (np_add (Some 1)
                    (np_div (Some (cylinderRadius * cylinderRadius)) (Some (r * r)))))
                 (Some (strength / (2 * pi) * theta));
          psi = np_add
                 (np_mul (Some (Vinf * r * sin theta)) (np_sub (Some 1)
                    (np_div (Some (cylinderRadius * cylinderRadius)) (Some (r * r)))))
                 (np_mul (Some (strength / (2 * pi)))
                    (np_log (np_div (Some r) (Some cylinderRadius))))
      in \<lparr>Vr = Vr, Vtheta = Vtheta, Vmag = Vmag, Vx = Vx, Vy = Vy, phi = phi, psi = psi\<rparr>)"

definition grid_fields ::
  "real \<times> real \<Rightarrow> real \<times> real \<Rightarrow> real \<Rightarrow> real \<Rightarrow> real \<Rightarrow> gridfields list list" where
  "grid_fields Lx Ly Vinf cylinderRadius strength =
     (let x = linspace (fst Lx) (snd Lx) 50;
          y = linspace (fst Ly) (snd Ly) 50;
          (XX, YY) = meshgrid x y
      in map2d (grid_point Vinf cylinderRadius strength) XX YY)"

subsection \<open>Body surface\<close>

record surfacefields =
  thetaS :: real
  xS :: real
  yS :: real
  VrS :: npfloat
  VthetaS :: npfloat
  VmagS :: npfloat
  VxS :: npfloat
  VyS :: npfloat
  CpS :: npfloat

text \<open>One surface sample. \<open>vortex\<close> is the scalar \<open>strength/(2*np.pi*cylinderRadius)\<close>,
  which the source computes once, with Python's division.\<close>

definition surface_point :: "real \<Rightarrow> real \<Rightarrow> real \<Rightarrow> real \<Rightarrow> real \<Rightarrow> surfacefields" where
  "surface_point Vinf cylinderRadius vortex th rs =
     (let VrS = np_mul (np_mul (np_sub (Some 1)
                  (np_div (Some (cylinderRadius * cylinderRadius)) (Some (rs * rs))))
                  (Some Vinf)) (Some (cos th));
          VthetaS = np_sub
                  (np_mul (np_mul (np_neg (np_add (Some 1)
                     (np_div (Some (cylinderRadius * cylinderRadius)) (Some (rs * rs)))))
                     (Some Vinf)) (Some (sin th)))
                  (Some vortex);
          VmagS = np_sqrt (np_add (np_mul VrS VrS) (np_mul VthetaS VthetaS));
          VxS = np_sub (np_mul VrS (Some (cos th))) (np_mul VthetaS (Some (sin th)));
          VyS = np_add (np_mul VrS (Some (sin th))) (np_mul VthetaS (Some (cos th)));
          CpS = np_sub (Some 1) (np_div (np_mul VmagS VmagS) (Some (Vinf * Vinf)))
      in \<lparr>thetaS = th, xS = rs * cos th, yS = rs * sin th,
          VrS = VrS, VthetaS = VthetaS, VmagS = VmagS, VxS = VxS, VyS = VyS, CpS = CpS\<rparr>)"

definition surface_fields :: "real \<Rightarrow> real \<Rightarrow> real \<Rightarrow> error + surfacefields list" where
  "surface_fields Vinf cylinderRadius strength =
     (let n = 250;
          thetaS = linspace 0 (2 * pi) n;
          rS = map (\<lambda>one. cylinderRadius * one) (replicate n 1)
      in case py_div strength (2 * pi * cylinderRadius) of
           Inl e \<Rightarrow> Inl e
         | Inr vortex \<Rightarrow> Inr (map2 (surface_point Vinf cylinderRadius vortex) thetaS rS))"

subsection \<open>Stagnation points\<close>

record stagnation =
  thetaStag :: "npfloat list"
  rStag :: "npfloat list"
  xStag :: "npfloat list"
  yStag :: "npfloat list"

text \<open>\<open>thetaStag += (thetaStag < 0)*2*np.pi\<close>, at one element; a comparison with \<open>nan\<close>
  is false and leaves \<open>nan\<close>.\<close>

fun wrap_angle :: "npfloat \<Rightarrow> npfloat" where
  "wrap_angle (Some t) = Some (t + (if t < 0 then 1 else 0) * 2 * pi)"
| "wrap_angle None = None"

definition stagnation_points :: "real \<Rightarrow> real \<Rightarrow> real \<Rightarrow> error + stagnation" where
  "stagnation_points Vinf cylinderRadius strength =
     (case py_div strength (4 * pi * Vinf * cylinderRadius) of
        Inl e \<Rightarrow> Inl e
      | Inr condition \<Rightarrow>
          (case (if condition < 1 then
                   Inr (map wrap_angle
                          [np_sub (Some pi) (np_arcsin (Some (- condition))),
                           np_arcsin (Some (- condition))],
                        [Some cylinderRadius, Some cylinderRadius])
                 else if condition = 1 then
                   Inr ([Some (3 * pi / 2)], [Some cylinderRadius])
                 else
                   (case py_div strength (4 * pi * Vinf) of
                      Inl e \<Rightarrow> Inl e
                    | Inr tmp \<Rightarrow>
                        Inr ([Some (3 * pi / 2), Some (3 * pi / 2)],
                             [np_add (Some tmp) (np_sqrt (Some (tmp ^ 2 - cylinderRadius ^ 2))),
                              np_sub (Some tmp) (np_sqrt (Some (tmp ^ 2 - cylinderRadius ^ 2)))])))
           of Inl e \<Rightarrow> Inl e
            | Inr (ths, rs) \<Rightarrow>
                Inr \<lparr>thetaStag = ths, rStag = rs,
                     xStag = map2 np_mul rs (map np_cos ths),
                     yStag = map2 np_mul rs (map np_sin ths)\<rparr>))"

subsection \<open>The whole computation\<close>

text \<open>What the figures are drawn from. The body contour, the doublet marker and the
  stagnation markers are only added to the figures when \<open>cylinderRadius != 0\<close>.\<close>

record solution =
  grid :: "gridfields list list"
  surface :: "surfacefields list"
  stag :: stagnation
  body_contour :: bool
  stagnation_markers :: bool

definition plotRotatingCylinder ::
  "real \<times> real \<Rightarrow> real \<times> real \<Rightarrow> real \<Rightarrow> real \<Rightarrow> real \<Rightarrow> error + solution" where
  "plotRotatingCylinder Lx Ly Vinf cylinderRadius strength =
     (case sanity_check Lx Ly Vinf cylinderRadius of
        Inl e \<Rightarrow> Inl e
      | Inr _ \<Rightarrow>
          (let g = grid_fields Lx Ly Vinf cylinderRadius strength
           in case surface_fields Vinf cylinderRadius strength of
                Inl e \<Rightarrow> Inl e
              | Inr s \<Rightarrow>
                  (case stagnation_points Vinf cylinderRadius strength of
                     Inl e \<Rightarrow> Inl e
                   | Inr p \<Rightarrow>
                       Inr \<lparr>grid = g, surface = s, stag = p,
                            body_contour = (cylinderRadius \<noteq> 0),
                            stagnation_markers = (cylinderRadius \<noteq> 0)\<rparr>)))"

section \<open>The Cylinder flow element (\<open>PresetCylinder\<close>)\<close>

record PresetCylinder =
  Vinfty :: real
  radius :: real
  position :: "real \<times> real"

text \<open>\<open>calculate_contribution\<close> at one query point. \<open>r\<close> comes from \<open>np.sqrt\<close>, so
  \<open>self.radius/r\<close> is a numpy division and does not raise at \<open>r = 0\<close>.\<close>

definition calculate_contribution ::
  "PresetCylinder \<Rightarrow> real \<Rightarrow> real \<Rightarrow> npfloat \<times> npfloat \<times> npfloat \<times> npfloat" where
  "calculate_contribution self x y =
     (let x0 = fst (position self);
          y0 = snd (position self);
          dx = x - x0;
          dy = y - y0;
          r = sqrt (dx * dx + dy * dy);
          theta = arctan2 dy dx;
          q = np_div (Some (radius self)) (Some r);
          Vr = np_mul (Some (Vinfty self * cos theta)) (np_sub (Some 1) (np_mul q q));
          Vtheta = np_mul (Some (- Vinfty self * sin theta)) (np_add (Some 1) (np_mul q q));
          du = np_sub (np_mul Vr (Some (cos theta))) (np_mul Vtheta (Some (sin theta)));
          dv = np_add (np_mul Vr (Some (sin theta))) (np_mul Vtheta (Some (cos theta)));
          dphi = np_mul (Some (Vinfty self * r * cos theta)) (np_add (Some 1) (np_mul q q));
          dpsi = np_mul (Some (Vinfty self * r * sin theta)) (np_sub (Some 1) (np_mul q q))
      in (du, dv, dphi, dpsi))"

section \<open>Flow elements seen by the aggregator\<close>

text \<open>
  \<open>Flowfield.draw\<close> uses an element through \<open>flow_element_type\<close>, the four methods
  \<open>get_x_velocity_at\<close>, \<open>get_y_velocity_at\<close>, \<open>get_potential_at\<close>,
  \<open>get_streamfunction_at\<close>, and, for an element of type \<open>Uniform\<close>, its attributes \<open>u\<close>
  and \<open>v\<close>. The methods are taken to act point by point on the batch of query points.
  The attributes are only read under the \<open>Uniform\<close> tag.
\<close>

record element =
  etype :: string
  u :: real
  v :: real
  get_x_velocity_at :: "real \<times> real \<Rightarrow> npfloat"
  get_y_velocity_at :: "real \<times> real \<Rightarrow> npfloat"
  get_potential_at :: "real \<times> real \<Rightarrow> npfloat"
  get_streamfunction_at :: "real \<times> real \<Rightarrow> npfloat"

text \<open>Modelled from the spec: the Uniform element class, which is not among the sources.
  Spec 4.1: velocity is the constant \<open>(U, V)\<close>, potential \<open>U*x + V*y\<close>, streamfunction
  \<open>U*y - V*x\<close>.\<close>

definition Uniform :: "real \<Rightarrow> real \<Rightarrow> element" where
  "Uniform U V =
     \<lparr>etype = ''Uniform'', u = U, v = V,
      get_x_velocity_at = (\<lambda>p. Some U),
      get_y_velocity_at = (\<lambda>p. Some V),
      get_potential_at = (\<lambda>p. Some (U * fst p + V * snd p)),
      get_streamfunction_at = (\<lambda>p. Some (U * snd p - V * fst p))\<rparr>"

text \<open>Modelled from the spec: the Doublet element class, which is not among the sources.
  Spec 4.1: with \<open>dx = x - x0\<close>, \<open>dy = y - y0\<close>, \<open>r^2 = dx^2 + dy^2\<close>,
  \<open>theta = atan2(dy, dx)\<close>: \<open>Vr = -(kappa/(2 pi r^2)) cos(theta - alpha)\<close>,
  \<open>Vtheta = -(kappa/(2 pi r^2)) sin(theta - alpha)\<close>, \<open>u = Vr cos theta - Vtheta sin theta\<close>,
  \<open>v = Vr sin theta + Vtheta cos theta\<close>, \<open>phi = (kappa/(2 pi r)) cos(theta - alpha)\<close>,
  \<open>psi = -(kappa/(2 pi r)) sin(theta - alpha)\<close>; division by zero at \<open>r = 0\<close> gives a
  non-finite value.\<close>

definition doublet_Vr :: "real \<Rightarrow> real \<Rightarrow> real \<times> real \<Rightarrow> real \<times> real \<Rightarrow> npfloat" where
  "doublet_Vr kappa alpha c p =
     (let dx = fst p - fst c; dy = snd p - snd c
      in np_mul (np_neg (np_div (Some kappa) (Some (2 * pi * (dx * dx + dy * dy)))))
           (Some (cos (arctan2 dy dx - alpha))))"

definition doublet_Vtheta :: "real \<Rightarrow> real \<Rightarrow> real \<times> real \<Rightarrow> real \<times> real \<Rightarrow> npfloat" where
  "doublet_Vtheta kappa alpha c p =
     (let dx = fst p - fst c; dy = snd p - snd c
      in np_mul (np_neg (np_div (Some kappa) (Some (2 * pi * (dx * dx + dy * dy)))))
           (Some (sin (arctan2 dy dx - alpha))))"

definition Doublet :: "real \<Rightarrow> real \<Rightarrow> real \<times> real \<Rightarrow> element" where
  "Doublet kappa alpha c =
     \<lparr>etype = ''Doublet'', u = 0, v = 0,
      get_x_velocity_at = (\<lambda>p.
        let theta = arctan2 (snd p - snd c) (fst p - fst c)
        in np_sub (np_mul (doublet_Vr kappa alpha c p) (Some (cos theta)))
             (np_mul (doublet_Vtheta kappa alpha c p) (Some (sin theta)))),
      get_y_velocity_at = (\<lambda>p.
        let theta = arctan2 (snd p - snd c) (fst p - fst c)
        in np_add (np_mul (doublet_Vr kappa alpha c p) (Some (sin theta)))
             (np_mul (doublet_Vtheta kappa alpha c p) (Some (cos theta)))),
      get_potential_at = (\<lambda>p.
        let dx = fst p - fst c; dy = snd p - snd c
        in np_mul (np_div (Some kappa) (Some (2 * pi * sqrt (dx * dx + dy * dy))))
             (Some (cos (arctan2 dy dx - alpha)))),
      get_streamfunction_at = (\<lambda>p.
        let dx = fst p - fst c; dy = snd p - snd c
        in np_mul (np_neg (np_div (Some kappa) (Some (2 * pi * sqrt (dx * dx + dy * dy)))))
             (Some (sin (arctan2 dy dx - alpha))))\<rparr>"

section \<open>The field aggregator (\<open>Flowfield.draw\<close>)\<close>

text \<open>The variables of \<open>draw\<close> that the loop writes. \<open>Cp\<close> is unbound before the first
  iteration; it is the empty list here and is never read in that state, because the loop
  runs at least once.\<close>

record fieldsample =
  x_vels :: "npfloat list"
  y_vels :: "npfloat list"
  potential :: "npfloat list"
  streamfunction :: "npfloat list"
  u_cumulative :: real
  v_cumulative :: real
  V2_infty :: real
  Cp :: "npfloat list"

text \<open>\<open>points\<close>: the flattened mesh grid, row by row.\<close>

definition draw_points :: "real list \<Rightarrow> real list \<Rightarrow> (real \<times> real) list" where
  "draw_points x_points y_points =
     (let (X, Y) = meshgrid x_points y_points in zip (concat X) (concat Y))"

definition draw_init :: "(real \<times> real) list \<Rightarrow> fieldsample" where
  "draw_init points =
     \<lparr>x_vels = map (\<lambda>p. Some 0) points, y_vels = map (\<lambda>p. Some 0) points,
      potential = map (\<lambda>p. Some 0) points, streamfunction = map (\<lambda>p. Some 0) points,
      u_cumulative = 0, v_cumulative = 0, V2_infty = 1, Cp = []\<rparr>"

text \<open>One iteration of the loop over \<open>self.objects.values()\<close>.\<close>

definition draw_step :: "(real \<times> real) list \<Rightarrow> fieldsample \<Rightarrow> element \<Rightarrow> fieldsample" where
  "draw_step points acc object =
     (let acc1 = acc\<lparr>x_vels := map2 np_add (x_vels acc) (map (get_x_velocity_at object) points),
                     y_vels := map2 np_add (y_vels acc) (map (get_y_velocity_at object) points),
                     potential := map2 np_add (potential acc) (map (get_potential_at object) points),
                     streamfunction :=
                       map2 np_add (streamfunction acc) (map (get_streamfunction_at object) points)\<rparr>;
          acc2 = (if etype object = ''Uniform'' then
                    (let uc = u_cumulative acc1 + u object;
                         vc = v_cumulative acc1 + v object;
                         V2i = uc ^ 2 + vc ^ 2
                     in acc1\<lparr>u_cumulative := uc, v_cumulative := vc,
                             V2_infty := (if V2i = 0 then 1 else V2i)\<rparr>)
                  else acc1);
          V2 = map2 (\<lambda>a b. np_add (np_mul a a) (np_mul b b)) (x_vels acc2) (y_vels acc2)
      in acc2\<lparr>Cp := map (\<lambda>q. np_sub (Some 1) (np_div q (Some (V2_infty acc2)))) V2\<rparr>)"

text \<open>\<open>draw\<close>, up to the plotting routine: \<open>None\<close> is the early return of the empty
  figure for an empty collection. \<open>objects\<close> is the dictionary in insertion order.\<close>

definition draw :: "(string \<times> element) list \<Rightarrow> real list \<Rightarrow> real list \<Rightarrow> fieldsample option" where
  "draw objects x_points y_points =
     (if length objects = 0 then None
      else (let points = draw_points x_points y_points
            in Some (foldl (draw_step points) (draw_init points) (map snd objects))))"

section \<open>Properties\<close>

subsection \<open>Auxiliary facts\<close>

lemma py_div_zero: "py_div a 0 = Inl ZeroDivisionError"
  by (simp add: py_div_def)

lemma py_div_nonzero: "b \<noteq> 0 \<Longrightarrow> py_div a b = Inr (a / b)"
  by (simp add: py_div_def)

lemma sanity_check_valid:
  "fst Lx \<le> snd Lx \<Longrightarrow> fst Ly \<le> snd Ly \<Longrightarrow> 0 \<le> Vinf \<Longrightarrow> 0 \<le> R \<Longrightarrow>
   sanity_check Lx Ly Vinf R = Inr ()"
  by (simp add: sanity_check_def)

lemma sanity_check_invalid:
  "fst Lx > snd Lx \<or> fst Ly > snd Ly \<or> Vinf < 0 \<or> R < 0 \<Longrightarrow>
   \<exists>msg. sanity_check Lx Ly Vinf R = Inl (ValueError msg)"
  by (auto simp add: sanity_check_def)

lemma length_linspace: "length (linspace a b n) = n"
  by (auto simp add: linspace_def)

lemma linspace_nth:
  "2 \<le> n \<Longrightarrow> i < n \<Longrightarrow>
   linspace a b n ! i = (if i = n - 1 then b else a + real i * ((b - a) / real (n - 1)))"
  by (auto simp add: linspace_def nth_append)

lemma surface_fields_ok:
  "R \<noteq> 0 \<Longrightarrow>
   surface_fields Vinf R strength =
     Inr (map (\<lambda>th. surface_point Vinf R (strength / (2 * pi * R)) th R)
            (linspace 0 (2 * pi) 250))"
  by (simp add: surface_fields_def py_div_nonzero Let_def map_replicate_const zip_replicate2
      length_linspace map_zip_map2)

lemma stagnation_points_cases:
  assumes "0 < Vinf" "0 < R"
  shows "stagnation_points Vinf R strength =
     (let condition = strength / (4 * pi * Vinf * R); tmp = strength / (4 * pi * Vinf);
          ths = (if condition < 1 then
                   map wrap_angle [np_sub (Some pi) (np_arcsin (Some (- condition))),
                                   np_arcsin (Some (- condition))]
                 else if condition = 1 then [Some (3 * pi / 2)]
                 else [Some (3 * pi / 2), Some (3 * pi / 2)]);
          rs = (if condition < 1 then [Some R, Some R]
                else if condition = 1 then [Some R]
                else [np_add (Some tmp) (np_sqrt (Some (tmp ^ 2 - R ^ 2))),
                      np_sub (Some tmp) (np_sqrt (Some (tmp ^ 2 - R ^ 2)))])
      in Inr \<lparr>thetaStag = ths, rStag = rs,
              xStag = map2 np_mul rs (map np_cos ths),
              yStag = map2 np_mul rs (map np_sin ths)\<rparr>)"
proof -
  have nz: "4 * pi * Vinf * R \<noteq> 0" "4 * pi * Vinf \<noteq> 0"
    using assms by simp_all
  show ?thesis
    unfolding stagnation_points_def py_div_nonzero [OF nz(1)] py_div_nonzero [OF nz(2)]
    by (simp add: Let_def)
qed

lemma plotRotatingCylinder_ok:
  assumes "fst Lx \<le> snd Lx" "fst Ly \<le> snd Ly" "0 < Vinf" "0 < R"
  shows "\<exists>s p. surface_fields Vinf R strength = Inr s \<and> stagnation_points Vinf R strength = Inr p \<and>
     plotRotatingCylinder Lx Ly Vinf R strength =
       Inr \<lparr>grid = grid_fields Lx Ly Vinf R strength, surface = s, stag = p,
            body_contour = True, stagnation_markers = True\<rparr>"
proof -
  have R: "R \<noteq> 0" using assms by simp
  obtain p where p: "stagnation_points Vinf R strength = Inr p"
    using stagnation_points_cases [OF assms(3,4), of strength] by (simp add: Let_def)
  have "sanity_check Lx Ly Vinf R = Inr ()"
    using assms by (simp add: sanity_check_valid)
  then show ?thesis
    using p R by (simp add: plotRotatingCylinder_def surface_fields_ok Let_def)
qed

lemma off_surface_radii:
  fixes t R :: real
  assumes "0 < R" "R < t"
  shows "(t + sqrt (t\<^sup>2 - R\<^sup>2)) * (t - sqrt (t\<^sup>2 - R\<^sup>2)) = R\<^sup>2"
    and "R < t + sqrt (t\<^sup>2 - R\<^sup>2)"
    and "t - sqrt (t\<^sup>2 - R\<^sup>2) < R"
    and "0 < t - sqrt (t\<^sup>2 - R\<^sup>2)"
proof -
  have sq: "R\<^sup>2 < t\<^sup>2" using assms by (simp add: power_strict_mono)
  then have d: "0 < t\<^sup>2 - R\<^sup>2" by simp
  then have s: "0 < sqrt (t\<^sup>2 - R\<^sup>2)" by simp
  have ss: "sqrt (t\<^sup>2 - R\<^sup>2) * sqrt (t\<^sup>2 - R\<^sup>2) = t\<^sup>2 - R\<^sup>2"
    using d by simp
  show prod: "(t + sqrt (t\<^sup>2 - R\<^sup>2)) * (t - sqrt (t\<^sup>2 - R\<^sup>2)) = R\<^sup>2"
    using ss by (simp add: algebra_simps power2_eq_square)
  show big: "R < t + sqrt (t\<^sup>2 - R\<^sup>2)" using assms s by linarith
  have "t\<^sup>2 - R\<^sup>2 < t\<^sup>2" using assms by simp
  then have "sqrt (t\<^sup>2 - R\<^sup>2) < sqrt (t\<^sup>2)" by (rule real_sqrt_less_mono)
  moreover have "sqrt (t\<^sup>2) = t" using assms by simp
  ultimately have lt: "sqrt (t\<^sup>2 - R\<^sup>2) < t" by simp
  then show pos: "0 < t - sqrt (t\<^sup>2 - R\<^sup>2)" by simp
  show "t - sqrt (t\<^sup>2 - R\<^sup>2) < R"
  proof (rule ccontr)
    assume "\<not> t - sqrt (t\<^sup>2 - R\<^sup>2) < R"
    then have ge: "R \<le> t - sqrt (t\<^sup>2 - R\<^sup>2)" by simp
    have "R * R < (t + sqrt (t\<^sup>2 - R\<^sup>2)) * (t - sqrt (t\<^sup>2 - R\<^sup>2))"
      using big ge assms pos by (intro mult_less_le_imp_less) simp_all
    then show False using prod by (simp add: power2_eq_square)
  qed
qed

lemma on_surface_angles:
  fixes c :: real
  assumes "- 1 \<le> c" "c < 1"
  shows "map wrap_angle [np_sub (Some pi) (np_arcsin (Some (- c))), np_arcsin (Some (- c))] =
           [Some (pi - arcsin (- c)),
            Some (if arcsin (- c) < 0 then arcsin (- c) + 2 * pi else arcsin (- c))]"
    and "0 \<le> pi - arcsin (- c)" and "pi - arcsin (- c) < 2 * pi"
    and "0 \<le> (if arcsin (- c) < 0 then arcsin (- c) + 2 * pi else arcsin (- c))"
    and "(if arcsin (- c) < 0 then arcsin (- c) + 2 * pi else arcsin (- c)) < 2 * pi"
proof -
  have r: "- 1 \<le> - c" "- c \<le> 1" using assms by simp_all
  have b: "- (pi / 2) \<le> arcsin (- c)" "arcsin (- c) \<le> pi / 2"
    using arcsin_bounded [OF r] by simp_all
  have p: "0 < pi" by simp
  show "0 \<le> pi - arcsin (- c)" using b p by linarith
  then show "map wrap_angle [np_sub (Some pi) (np_arcsin (Some (- c))), np_arcsin (Some (- c))] =
           [Some (pi - arcsin (- c)),
            Some (if arcsin (- c) < 0 then arcsin (- c) + 2 * pi else arcsin (- c))]"
    using r by simp
  show "pi - arcsin (- c) < 2 * pi" using b p by linarith
  have w: "0 \<le> (if a < 0 then a + 2 * pi else a) \<and> (if a < 0 then a + 2 * pi else a) < 2 * pi"
    if "- (pi / 2) \<le> a" "a \<le> pi / 2" for a :: real
  proof -
    have neg: "0 \<le> a + 2 * pi" "a + 2 * pi < 2 * pi" if "a < 0"
      using that \<open>- (pi / 2) \<le> a\<close> pi_gt_zero by linarith+
    have pos: "0 \<le> a" "a < 2 * pi" if "\<not> a < 0"
      using that \<open>a \<le> pi / 2\<close> pi_gt_zero by linarith+
    show ?thesis
      by (cases "a < 0") (simp_all only: if_True if_False neg pos simp_thms)
  qed
  show "0 \<le> (if arcsin (- c) < 0 then arcsin (- c) + 2 * pi else arcsin (- c))"
    using w [OF b] by blast
  show "(if arcsin (- c) < 0 then arcsin (- c) + 2 * pi else arcsin (- c)) < 2 * pi"
    using w [OF b] by blast
qed

lemma map2d_meshgrid_nth:
  assumes "i < length x" "j < length y"
  shows "map2d f (fst (meshgrid x y)) (snd (meshgrid x y)) ! j ! i = f (x ! i) (y ! j)"
  using assms by (simp add: map2d_def meshgrid_def)

lemma grid_fields_nth:
  assumes "i < 50" "j < 50"
  shows "grid_fields Lx Ly Vinf R strength ! j ! i =
     grid_point Vinf R strength (linspace (fst Lx) (snd Lx) 50 ! i) (linspace (fst Ly) (snd Ly) 50 ! j)"
proof -
  have "grid_fields Lx Ly Vinf R strength =
      map2d (grid_point Vinf R strength)
        (fst (meshgrid (linspace (fst Lx) (snd Lx) 50) (linspace (fst Ly) (snd Ly) 50)))
        (snd (meshgrid (linspace (fst Lx) (snd Lx) 50) (linspace (fst Ly) (snd Ly) 50)))"
    by (simp add: grid_fields_def Let_def split_beta)
  then show ?thesis
    using assms by (simp add: map2d_meshgrid_nth length_linspace)
qed

lemma grid_point_closed_form:
  fixes Vinf R strength x y :: real
  defines "r \<equiv> sqrt (x * x + y * y)"
  defines "theta \<equiv> arctan2 y x"
  defines "g \<equiv> grid_point Vinf R strength x y"
  assumes "0 < r"
  shows "Vr g = Some ((1 - R\<^sup>2 / r\<^sup>2) * Vinf * cos theta)"
    and "Vtheta g = Some (- (1 + R\<^sup>2 / r\<^sup>2) * Vinf * sin theta - strength / (2 * pi * r))"
    and "Vmag g = Some (sqrt (((1 - R\<^sup>2 / r\<^sup>2) * Vinf * cos theta)\<^sup>2 +
            (- (1 + R\<^sup>2 / r\<^sup>2) * Vinf * sin theta - strength / (2 * pi * r))\<^sup>2))"
    and "Vx g = Some ((1 - R\<^sup>2 / r\<^sup>2) * Vinf * cos theta * cos theta -
            (- (1 + R\<^sup>2 / r\<^sup>2) * Vinf * sin theta - strength / (2 * pi * r)) * sin theta)"
    and "Vy g = Some ((1 - R\<^sup>2 / r\<^sup>2) * Vinf * cos theta * sin theta +
            (- (1 + R\<^sup>2 / r\<^sup>2) * Vinf * sin theta - strength / (2 * pi * r)) * cos theta)"
    and "phi g = Some (Vinf * r * cos theta * (1 + R\<^sup>2 / r\<^sup>2) - strength / (2 * pi) * theta)"
    and "0 < R \<Longrightarrow> psi g = Some (Vinf * r * sin theta * (1 - R\<^sup>2 / r\<^sup>2) +
            strength / (2 * pi) * ln (r / R))"
    and "R = 0 \<Longrightarrow> psi g = None"
proof -
  have rr: "r * r \<noteq> 0" "2 * pi * r \<noteq> 0" using assms(4) by simp_all
  have nn: "\<not> a * a + b * b < 0" for a b :: real
    by (simp add: not_less)
  show "Vr g = Some ((1 - R\<^sup>2 / r\<^sup>2) * Vinf * cos theta)"
    using rr unfolding g_def grid_point_def r_def [symmetric] theta_def [symmetric]
    by (simp add: Let_def power2_eq_square)
  show "Vtheta g = Some (- (1 + R\<^sup>2 / r\<^sup>2) * Vinf * sin theta - strength / (2 * pi * r))"
    using rr unfolding g_def grid_point_def r_def [symmetric] theta_def [symmetric]
    by (simp add: Let_def power2_eq_square)
  show "Vmag g = Some (sqrt (((1 - R\<^sup>2 / r\<^sup>2) * Vinf * cos theta)\<^sup>2 +
            (- (1 + R\<^sup>2 / r\<^sup>2) * Vinf * sin theta - strength / (2 * pi * r))\<^sup>2))"
    using rr unfolding g_def grid_point_def r_def [symmetric] theta_def [symmetric]
    by (simp add: Let_def power2_eq_square nn)
  show "Vx g = Some ((1 - R\<^sup>2 / r\<^sup>2) * Vinf * cos theta * cos theta -
            (- (1 + R\<^sup>2 / r\<^sup>2) * Vinf * sin theta - strength / (2 * pi * r)) * sin theta)"
    using rr unfolding g_def grid_point_def r_def [symmetric] theta_def [symmetric]
    by (simp add: Let_def power2_eq_square)
  show "Vy g = Some ((1 - R\<^sup>2 / r\<^sup>2) * Vinf * cos theta * sin theta +
            (- (1 + R\<^sup>2 / r\<^sup>2) * Vinf * sin theta - strength / (2 * pi * r)) * cos theta)"
    using rr unfolding g_def grid_point_def r_def [symmetric] theta_def [symmetric]
    by (simp add: Let_def power2_eq_square)
  show "phi g = Some (Vinf * r * cos theta * (1 + R\<^sup>2 / r\<^sup>2) - strength / (2 * pi) * theta)"
    using rr unfolding g_def grid_point_def r_def [symmetric] theta_def [symmetric]
    by (simp add: Let_def power2_eq_square)
  show "psi g = Some (Vinf * r * sin theta * (1 - R\<^sup>2 / r\<^sup>2) +
            strength / (2 * pi) * ln (r / R))" if "0 < R"
  proof -
    have "\<not> r / R \<le> 0" using that assms(4) by (simp add: not_le)
    then show ?thesis
      using rr that unfolding g_def grid_point_def r_def [symmetric] theta_def [symmetric]
      by (simp add: Let_def power2_eq_square)
  qed
  show "psi g = None" if "R = 0"
    using that unfolding g_def grid_point_def by (simp add: Let_def)
qed

lemma surface_nth:
  assumes "R \<noteq> 0" "i < 250"
  shows "surface_fields Vinf R strength = Inr s \<Longrightarrow>
     s ! i = surface_point Vinf R (strength / (2 * pi * R))
               (if i = 249 then 2 * pi else real i * (2 * pi / 249)) R"
  using assms by (auto simp add: surface_fields_ok length_linspace linspace_nth)

lemma surface_length:
  assumes "R \<noteq> 0"
  shows "surface_fields Vinf R strength = Inr s \<Longrightarrow> length s = 250"
  using assms by (auto simp add: surface_fields_ok length_linspace)

lemma surface_point_Cp_no_circulation:
  fixes Vinf R th :: real
  assumes "0 < Vinf" "0 < R"
  shows "CpS (surface_point Vinf R 0 th R) = Some (1 - 4 * (sin th)\<^sup>2)"
proof -
  let ?sp = "surface_point Vinf R 0 th R"
  have nz: "R * R \<noteq> 0" "Vinf * Vinf \<noteq> 0" using assms by simp_all
  have vr: "VrS ?sp = Some 0"
    using nz by (simp add: surface_point_def Let_def)
  have vt: "VthetaS ?sp = Some (- (2 * Vinf * sin th))"
    using nz by (simp add: surface_point_def Let_def)
  have cp: "CpS ?sp = np_sub (Some 1) (np_div
      (np_mul (np_sqrt (np_add (np_mul (VrS ?sp) (VrS ?sp)) (np_mul (VthetaS ?sp) (VthetaS ?sp))))
              (np_sqrt (np_add (np_mul (VrS ?sp) (VrS ?sp)) (np_mul (VthetaS ?sp) (VthetaS ?sp)))))
      (Some (Vinf * Vinf)))"
    by (simp add: surface_point_def Let_def)
  have sq: "np_mul (np_sqrt (np_add (np_mul (Some 0) (Some 0)) (np_mul (Some b) (Some b))))
                   (np_sqrt (np_add (np_mul (Some 0) (Some 0)) (np_mul (Some b) (Some b)))) =
            Some (b * b)" for b :: real
    by (simp add: not_less)
  show ?thesis
    unfolding cp vr vt sq using assms by (simp add: power2_eq_square)
qed

lemma surface_theta_nth:
  assumes "i < 250"
  shows "(if i = 249 then 2 * pi else real i * (2 * pi / 249)) = 2 * pi * real i / 249"
  by simp

lemma surface_theta_mirror:
  assumes "i < 250"
  shows "2 * pi * real (249 - i) / 249 = 2 * pi - 2 * pi * real i / 249"
proof -
  have "real (249 - i) = 249 - real i" using assms by simp
  then show ?thesis by (simp add: field_simps)
qed

lemma sin_mirror_sq: "(sin (2 * pi - x))\<^sup>2 = (sin x)\<^sup>2"
  by (simp add: sin_diff)

lemma plotRotatingCylinder_surface:
  assumes "fst Lx \<le> snd Lx" "fst Ly \<le> snd Ly" "0 < Vinf" "0 < R"
  shows "\<exists>out. plotRotatingCylinder Lx Ly Vinf R strength = Inr out \<and>
     surface_fields Vinf R strength = Inr (surface out)"
  using plotRotatingCylinder_ok [OF assms, of strength] by auto

lemma surface_point_Vmag_no_circulation:
  fixes Vinf R th :: real
  assumes "0 < Vinf" "0 < R"
  shows "VmagS (surface_point Vinf R 0 th R) = Some \<bar>2 * Vinf * sin th\<bar>"
proof -
  let ?sp = "surface_point Vinf R 0 th R"
  have nz: "R * R \<noteq> 0" using assms by simp
  have vr: "VrS ?sp = Some 0"
    using nz by (simp add: surface_point_def Let_def)
  have vt: "VthetaS ?sp = Some (- (2 * Vinf * sin th))"
    using nz by (simp add: surface_point_def Let_def)
  have vm: "VmagS ?sp =
      np_sqrt (np_add (np_mul (VrS ?sp) (VrS ?sp)) (np_mul (VthetaS ?sp) (VthetaS ?sp)))"
    by (simp add: surface_point_def Let_def)
  have sq: "np_sqrt (np_add (np_mul (Some 0) (Some 0)) (np_mul (Some b) (Some b))) = Some \<bar>b\<bar>"
    for b :: real
    by (simp add: not_less)
  show ?thesis
    unfolding vm vr vt sq by simp
qed

lemma draw_step_u_cumulative:
  "u_cumulative (draw_step points acc ob) =
     u_cumulative acc + (if etype ob = ''Uniform'' then u ob else 0)"
  by (simp add: draw_step_def Let_def)

lemma draw_step_v_cumulative:
  "v_cumulative (draw_step points acc ob) =
     v_cumulative acc + (if etype ob = ''Uniform'' then v ob else 0)"
  by (simp add: draw_step_def Let_def)

lemma draw_step_V2_infty:
  "V2_infty (draw_step points acc ob) =
     (if etype ob = ''Uniform'' then
        (if (u_cumulative acc + u ob)\<^sup>2 + (v_cumulative acc + v ob)\<^sup>2 = 0 then 1
         else (u_cumulative acc + u ob)\<^sup>2 + (v_cumulative acc + v ob)\<^sup>2)
      else V2_infty acc)"
  by (simp add: draw_step_def Let_def)

lemma draw_step_Cp:
  "Cp (draw_step points acc ob) =
     map2 (\<lambda>a b. np_sub (Some 1) (np_div (np_add (np_mul a a) (np_mul b b))
                                       (Some (V2_infty (draw_step points acc ob)))))
       (x_vels (draw_step points acc ob)) (y_vels (draw_step points acc ob))"
  by (simp add: draw_step_def Let_def split_def)

lemma foldl_draw_step_u_cumulative:
  "u_cumulative (foldl (draw_step points) acc obs) =
     u_cumulative acc + sum_list (map u (filter (\<lambda>ob. etype ob = ''Uniform'') obs))"
  by (induction obs arbitrary: acc) (simp_all add: draw_step_u_cumulative)

lemma foldl_draw_step_v_cumulative:
  "v_cumulative (foldl (draw_step points) acc obs) =
     v_cumulative acc + sum_list (map v (filter (\<lambda>ob. etype ob = ''Uniform'') obs))"
  by (induction obs arbitrary: acc) (simp_all add: draw_step_v_cumulative)

lemma foldl_draw_step_V2_infty:
  assumes "V2_infty acc =
     (if (u_cumulative acc)\<^sup>2 + (v_cumulative acc)\<^sup>2 = 0 then 1
      else (u_cumulative acc)\<^sup>2 + (v_cumulative acc)\<^sup>2)"
  shows "V2_infty (foldl (draw_step points) acc obs) =
     (if (u_cumulative (foldl (draw_step points) acc obs))\<^sup>2 +
         (v_cumulative (foldl (draw_step points) acc obs))\<^sup>2 = 0 then 1
      else (u_cumulative (foldl (draw_step points) acc obs))\<^sup>2 +
           (v_cumulative (foldl (draw_step points) acc obs))\<^sup>2)"
  using assms
proof (induction obs arbitrary: acc)
  case Nil
  then show ?case by simp
next
  case (Cons ob obs)
  have "V2_infty (draw_step points acc ob) =
     (if (u_cumulative (draw_step points acc ob))\<^sup>2 + (v_cumulative (draw_step points acc ob))\<^sup>2 = 0
      then 1
      else (u_cumulative (draw_step points acc ob))\<^sup>2 + (v_cumulative (draw_step points acc ob))\<^sup>2)"
  proof (cases "etype ob = ''Uniform''")
    case True
    then show ?thesis
      by (simp add: draw_step_V2_infty draw_step_u_cumulative draw_step_v_cumulative)
  next
    case False
    then show ?thesis
      using Cons.prems
      by (simp add: draw_step_V2_infty draw_step_u_cumulative draw_step_v_cumulative)
  qed
  then show ?case
    using Cons.IH [of "draw_step points acc ob"] by simp
qed

lemma foldl_draw_step_Cp:
  assumes "obs \<noteq> []"
  shows "Cp (foldl (draw_step points) acc obs) =
     map2 (\<lambda>a b. np_sub (Some 1) (np_div (np_add (np_mul a a) (np_mul b b))
                                       (Some (V2_infty (foldl (draw_step points) acc obs)))))
       (x_vels (foldl (draw_step points) acc obs)) (y_vels (foldl (draw_step points) acc obs))"
  using assms
proof (induction obs rule: rev_induct)
  case Nil
  then show ?case by simp
next
  case (snoc ob obs)
  show ?case
    by (simp only: foldl_append foldl.simps draw_step_Cp)
qed

lemma draw_nonempty:
  assumes "objects \<noteq> []"
  shows "draw objects x_points y_points =
     Some (foldl (draw_step (draw_points x_points y_points))
             (draw_init (draw_points x_points y_points)) (map snd objects))"
  using assms by (simp add: draw_def Let_def)

lemma length_draw_points:
  "length (draw_points x_points y_points) = length x_points * length y_points"
proof -
  have "length (concat (map (\<lambda>_. x_points) y_points)) = length x_points * length y_points"
    by (induction y_points) simp_all
  moreover have "length (concat (map (\<lambda>yj. map (\<lambda>_. yj) x_points) y_points)) =
      length x_points * length y_points"
    by (induction y_points) simp_all
  ultimately show ?thesis
    by (simp add: draw_points_def meshgrid_def)
qed

lemma draw_single_Uniform:
  fixes U V :: real and x_points y_points :: "real list"
  defines "ps \<equiv> draw_points x_points y_points"
  defines "out \<equiv> draw_step ps (draw_init ps) (Uniform U V)"
  shows "draw [(name, Uniform U V)] x_points y_points = Some out"
    and "x_vels out = map (\<lambda>p. Some U) ps"
    and "y_vels out = map (\<lambda>p. Some V) ps"
    and "V2_infty out = (if U\<^sup>2 + V\<^sup>2 = 0 then 1 else U\<^sup>2 + V\<^sup>2)"
    and "Cp out = map (\<lambda>p. np_sub (Some 1) (np_div (Some (U * U + V * V)) (Some (V2_infty out)))) ps"
proof -
  have z: "map2 np_add (map (\<lambda>p. Some 0) qs) (map (\<lambda>p. Some c) qs) = map (\<lambda>p. Some c) qs"
    for c :: real and qs :: "(real \<times> real) list"
    by (induction qs) simp_all
  have c: "map2 (\<lambda>a b. np_sub (Some 1) (np_div (np_add (np_mul a a) (np_mul b b)) (Some d)))
             (map (\<lambda>p. Some U) qs) (map (\<lambda>p. Some V) qs) =
           map (\<lambda>p. np_sub (Some 1) (np_div (Some (U * U + V * V)) (Some d))) qs"
    for d :: real and qs :: "(real \<times> real) list"
    by (induction qs) simp_all
  show "draw [(name, Uniform U V)] x_points y_points = Some out"
    by (simp add: draw_def Let_def out_def ps_def)
  show xv: "x_vels out = map (\<lambda>p. Some U) ps"
    unfolding out_def by (simp add: draw_step_def draw_init_def Uniform_def Let_def z)
  show yv: "y_vels out = map (\<lambda>p. Some V) ps"
    unfolding out_def by (simp add: draw_step_def draw_init_def Uniform_def Let_def z)
  show "V2_infty out = (if U\<^sup>2 + V\<^sup>2 = 0 then 1 else U\<^sup>2 + V\<^sup>2)"
    unfolding out_def draw_step_V2_infty by (simp add: draw_init_def Uniform_def)
  have "Cp out = map2 (\<lambda>a b. np_sub (Some 1) (np_div (np_add (np_mul a a) (np_mul b b))
                                       (Some (V2_infty out)))) (x_vels out) (y_vels out)"
    unfolding out_def by (rule draw_step_Cp)
  then show "Cp out =
      map (\<lambda>p. np_sub (Some 1) (np_div (Some (U * U + V * V)) (Some (V2_infty out)))) ps"
    unfolding xv yv c .
qed

lemma sqrt_sum_squares_factor:
  fixes dx dy :: real
  assumes "dx \<noteq> 0"
  shows "sqrt (dx * dx + dy * dy) = \<bar>dx\<bar> * sqrt (1 + (dy / dx)\<^sup>2)"
proof -
  have "dx * dx + dy * dy = dx\<^sup>2 * (1 + (dy / dx)\<^sup>2)"
    using assms by (simp add: field_simps power2_eq_square)
  then have "sqrt (dx * dx + dy * dy) = sqrt (dx\<^sup>2) * sqrt (1 + (dy / dx)\<^sup>2)"
    by (simp only: real_sqrt_mult)
  then show ?thesis by simp
qed

lemma arctan2_polar:
  fixes dx dy :: real
  assumes "0 < sqrt (dx * dx + dy * dy)"
  shows "sqrt (dx * dx + dy * dy) * cos (arctan2 dy dx) = dx"
    and "sqrt (dx * dx + dy * dy) * sin (arctan2 dy dx) = dy"
proof -
  define z where "z = dy / dx"
  have s: "0 < sqrt (1 + z\<^sup>2)"
    by (simp add: add_pos_nonneg)
  have both: "sqrt (dx * dx + dy * dy) * cos (arctan2 dy dx) = dx \<and>
              sqrt (dx * dx + dy * dy) * sin (arctan2 dy dx) = dy"
  proof (cases "0 < dx")
    case True
    then have r: "sqrt (dx * dx + dy * dy) = dx * sqrt (1 + z\<^sup>2)"
      using sqrt_sum_squares_factor [of dx dy] by (simp add: z_def)
    have a: "arctan2 dy dx = arctan z" using True by (simp add: arctan2_def z_def)
    have "dx * z = dy" using True by (simp add: z_def)
    then show ?thesis
      unfolding r a cos_arctan sin_arctan using s by simp
  next
    case False
    show ?thesis
    proof (cases "dx < 0")
      case True
      then have r: "sqrt (dx * dx + dy * dy) = - dx * sqrt (1 + z\<^sup>2)"
        using sqrt_sum_squares_factor [of dx dy] by (simp add: z_def)
      have a: "cos (arctan2 dy dx) = - cos (arctan z)" "sin (arctan2 dy dx) = - sin (arctan z)"
        using True by (simp_all add: arctan2_def z_def)
      have "dx * z = dy" using True by (simp add: z_def)
      then show ?thesis
        unfolding r a cos_arctan sin_arctan using s by simp
    next
      case F2: False
      then have dx0: "dx = 0" using False by simp
      then have dy0: "dy \<noteq> 0" using assms by auto
      show ?thesis
      proof (cases "0 < dy")
        case True
        then show ?thesis using dx0 by (simp add: arctan2_def)
      next
        case False
        then have "dy < 0" using dy0 by simp
        then show ?thesis using dx0 by (simp add: arctan2_def)
      qed
    qed
  qed
  show "sqrt (dx * dx + dy * dy) * cos (arctan2 dy dx) = dx" using both by blast
  show "sqrt (dx * dx + dy * dy) * sin (arctan2 dy dx) = dy" using both by blast
qed

lemma calculate_contribution_value:
  fixes Vinf R x y x0 y0 :: real
  defines "r \<equiv> sqrt ((x - x0) * (x - x0) + (y - y0) * (y - y0))"
  defines "theta \<equiv> arctan2 (y - y0) (x - x0)"
  assumes "0 < r"
  shows "calculate_contribution \<lparr>Vinfty = Vinf, radius = R, position = (x0, y0)\<rparr> x y =
     (Some (Vinf * cos theta * (1 - R / r * (R / r)) * cos theta -
            - Vinf * sin theta * (1 + R / r * (R / r)) * sin theta),
      Some (Vinf * cos theta * (1 - R / r * (R / r)) * sin theta +
            - Vinf * sin theta * (1 + R / r * (R / r)) * cos theta),
      Some (Vinf * r * cos theta * (1 + R / r * (R / r))),
      Some (Vinf * r * sin theta * (1 - R / r * (R / r))))"
proof -
  have nz: "r \<noteq> 0" using assms(3) by simp
  show ?thesis
    unfolding calculate_contribution_def Let_def
    by (simp add: r_def [symmetric] theta_def [symmetric] nz)
qed

lemma doublet_value:
  fixes kappa x y x0 y0 :: real
  defines "r \<equiv> sqrt ((x - x0) * (x - x0) + (y - y0) * (y - y0))"
  defines "theta \<equiv> arctan2 (y - y0) (x - x0)"
  assumes "0 < r"
  shows "get_x_velocity_at (Doublet kappa 0 (x0, y0)) (x, y) =
           Some (- (kappa / (2 * pi * (r * r))) * cos theta * cos theta -
                 - (kappa / (2 * pi * (r * r))) * sin theta * sin theta)"
    and "get_y_velocity_at (Doublet kappa 0 (x0, y0)) (x, y) =
           Some (- (kappa / (2 * pi * (r * r))) * cos theta * sin theta +
                 - (kappa / (2 * pi * (r * r))) * sin theta * cos theta)"
    and "get_potential_at (Doublet kappa 0 (x0, y0)) (x, y) =
           Some (kappa / (2 * pi * r) * cos theta)"
    and "get_streamfunction_at (Doublet kappa 0 (x0, y0)) (x, y) =
           Some (- (kappa / (2 * pi * r)) * sin theta)"
proof -
  have nz: "r \<noteq> 0" using assms(3) by simp
  have rr: "(x - x0) * (x - x0) + (y - y0) * (y - y0) = r * r"
    unfolding r_def by simp
  have xy: "x = x0 \<longrightarrow> y \<noteq> y0"
    using assms(3) unfolding r_def by auto
  show "get_x_velocity_at (Doublet kappa 0 (x0, y0)) (x, y) =
           Some (- (kappa / (2 * pi * (r * r))) * cos theta * cos theta -
                 - (kappa / (2 * pi * (r * r))) * sin theta * sin theta)"
    unfolding Doublet_def doublet_Vr_def doublet_Vtheta_def Let_def
    using xy by (simp add: theta_def [symmetric] rr nz)
  show "get_y_velocity_at (Doublet kappa 0 (x0, y0)) (x, y) =
           Some (- (kappa / (2 * pi * (r * r))) * cos theta * sin theta +
                 - (kappa / (2 * pi * (r * r))) * sin theta * cos theta)"
    unfolding Doublet_def doublet_Vr_def doublet_Vtheta_def Let_def
    using xy by (simp add: theta_def [symmetric] rr nz)
  show "get_potential_at (Doublet kappa 0 (x0, y0)) (x, y) =
           Some (kappa / (2 * pi * r) * cos theta)"
    unfolding Doublet_def Let_def
    using xy by (simp add: theta_def [symmetric] r_def [symmetric] nz)
  show "get_streamfunction_at (Doublet kappa 0 (x0, y0)) (x, y) =
           Some (- (kappa / (2 * pi * r)) * sin theta)"
    unfolding Doublet_def Let_def
    using xy by (simp add: theta_def [symmetric] r_def [symmetric] nz)
qed

lemma cylinder_superposition_algebra:
  fixes V R r c s :: real
  assumes "r \<noteq> 0" "c * c + s * s = 1"
  shows "V * c * (1 - R / r * (R / r)) * c - - V * s * (1 + R / r * (R / r)) * s =
         V + (- (2 * pi * V * R\<^sup>2 / (2 * pi * (r * r))) * c * c -
              - (2 * pi * V * R\<^sup>2 / (2 * pi * (r * r))) * s * s)"
    and "V * c * (1 - R / r * (R / r)) * s + - V * s * (1 + R / r * (R / r)) * c =
         0 + (- (2 * pi * V * R\<^sup>2 / (2 * pi * (r * r))) * c * s +
              - (2 * pi * V * R\<^sup>2 / (2 * pi * (r * r))) * s * c)"
    and "V * r * c * (1 + R / r * (R / r)) = V * (r * c) + 2 * pi * V * R\<^sup>2 / (2 * pi * r) * c"
    and "V * r * s * (1 - R / r * (R / r)) = V * (r * s) + - (2 * pi * V * R\<^sup>2 / (2 * pi * r)) * s"
proof -
  define k where "k = R / r"
  have k2: "2 * pi * V * R\<^sup>2 / (2 * pi * (r * r)) = V * (k * k)"
    by (simp add: k_def power2_eq_square)
  have k1: "2 * pi * V * R\<^sup>2 / (2 * pi * r) = V * (k * k) * r"
    using assms(1) by (simp add: k_def power2_eq_square)
  have "V * c * (1 - k * k) * c - - V * s * (1 + k * k) * s =
        V * (c * c + s * s) + (- (V * (k * k)) * c * c - - (V * (k * k)) * s * s)"
    by (simp add: algebra_simps)
  then show "V * c * (1 - R / r * (R / r)) * c - - V * s * (1 + R / r * (R / r)) * s =
         V + (- (2 * pi * V * R\<^sup>2 / (2 * pi * (r * r))) * c * c -
              - (2 * pi * V * R\<^sup>2 / (2 * pi * (r * r))) * s * s)"
    unfolding k2 k_def [symmetric] assms(2) by simp
  show "V * c * (1 - R / r * (R / r)) * s + - V * s * (1 + R / r * (R / r)) * c =
         0 + (- (2 * pi * V * R\<^sup>2 / (2 * pi * (r * r))) * c * s +
              - (2 * pi * V * R\<^sup>2 / (2 * pi * (r * r))) * s * c)"
    unfolding k2 k_def [symmetric] by (simp add: algebra_simps)
  show "V * r * c * (1 + R / r * (R / r)) = V * (r * c) + 2 * pi * V * R\<^sup>2 / (2 * pi * r) * c"
    unfolding k1 k_def [symmetric] by (simp add: algebra_simps)
  show "V * r * s * (1 - R / r * (R / r)) = V * (r * s) + - (2 * pi * V * R\<^sup>2 / (2 * pi * r)) * s"
    unfolding k1 k_def [symmetric] by (simp add: algebra_simps)
qed

lemma sqrt3_bounds: "1732 / 1000 < sqrt 3" "sqrt 3 < 1733 / 1000"
proof -
  show "1732 / 1000 < sqrt 3"
    by (rule real_less_rsqrt) (simp add: power2_eq_square)
  show "sqrt 3 < 1733 / 1000"
    by (rule real_less_lsqrt) (simp_all add: power2_eq_square)
qed

text \<open>
  The stagnation points of a call with \<open>Vinf > 0\<close> and \<open>R > 0\<close>, by the value of
  \<open>c = strength/(4*pi*Vinf*R)\<close>, with \<open>t = strength/(4*pi*Vinf)\<close>. Below \<open>-1\<close> the branch
  \<open>condition < 1\<close> is taken, \<open>np.arcsin(-c)\<close> is \<open>nan\<close>, and two points with \<open>nan\<close> angles
  are returned at radius \<open>R\<close>. For \<open>-1 \<le> c < 1\<close> the angles are \<open>pi - asin(-c)\<close> and
  \<open>asin(-c)\<close>, the latter increased by \<open>2*pi\<close> when negative, both in \<open>[0, 2*pi)\<close>, at
  radius \<open>R\<close>. For \<open>c = 1\<close> the single point is \<open>(3*pi/2, R)\<close>. For \<open>c > 1\<close> the two radii
  are \<open>t + sqrt(t^2 - R^2)\<close> and \<open>t - sqrt(t^2 - R^2)\<close> at \<open>3*pi/2\<close>. The examples are
  \<open>R = 1\<close>, \<open>Vinf = 1\<close> and \<open>strength = 0, 4*pi, 8*pi\<close>.
\<close>

lemma stagnation_points_regimes:
  fixes Vinf R strength :: real
  defines "c \<equiv> strength / (4 * pi * Vinf * R)"
  defines "t \<equiv> strength / (4 * pi * Vinf)"
  assumes "fst Lx \<le> snd Lx" "fst Ly \<le> snd Ly" "0 < Vinf" "0 < R"
  shows "\<exists>out. plotRotatingCylinder Lx Ly Vinf R strength = Inr out \<and>
     (c < - 1 \<longrightarrow>
        thetaStag (stag out) = [None, None] \<and> rStag (stag out) = [Some R, Some R]) \<and>
     (- 1 \<le> c \<and> c < 1 \<longrightarrow>
        thetaStag (stag out) =
          [Some (pi - arcsin (- c)),
           Some (if arcsin (- c) < 0 then arcsin (- c) + 2 * pi else arcsin (- c))] \<and>
        rStag (stag out) = [Some R, Some R] \<and>
        0 \<le> pi - arcsin (- c) \<and> pi - arcsin (- c) < 2 * pi \<and>
        0 \<le> (if arcsin (- c) < 0 then arcsin (- c) + 2 * pi else arcsin (- c)) \<and>
        (if arcsin (- c) < 0 then arcsin (- c) + 2 * pi else arcsin (- c)) < 2 * pi) \<and>
     (c = 1 \<longrightarrow>
        thetaStag (stag out) = [Some (3 * pi / 2)] \<and> rStag (stag out) = [Some R]) \<and>
     (1 < c \<longrightarrow>
        thetaStag (stag out) = [Some (3 * pi / 2), Some (3 * pi / 2)] \<and>
        rStag (stag out) = [Some (t + sqrt (t\<^sup>2 - R\<^sup>2)), Some (t - sqrt (t\<^sup>2 - R\<^sup>2))])"
proof -
  obtain s p where p: "stagnation_points Vinf R strength = Inr p"
    and out: "plotRotatingCylinder Lx Ly Vinf R strength =
       Inr \<lparr>grid = grid_fields Lx Ly Vinf R strength, surface = s, stag = p,
            body_contour = True, stagnation_markers = True\<rparr>"
    using plotRotatingCylinder_ok [OF assms(3-6), of strength] by blast
  note pc = p [unfolded stagnation_points_cases [OF assms(5,6)] c_def [symmetric] t_def [symmetric]]
  have low: "- 1 \<le> c \<and> c < 1 \<longrightarrow>
        thetaStag p =
          [Some (pi - arcsin (- c)),
           Some (if arcsin (- c) < 0 then arcsin (- c) + 2 * pi else arcsin (- c))] \<and>
        rStag p = [Some R, Some R]"
  proof
    assume a: "- 1 \<le> c \<and> c < 1"
    then have a1: "- 1 \<le> c" and a2: "c < 1" by simp_all
    have "thetaStag p = map wrap_angle [np_sub (Some pi) (np_arcsin (Some (- c))), np_arcsin (Some (- c))]"
      "rStag p = [Some R, Some R]"
      using pc a2 by (auto simp add: Let_def)
    then show "thetaStag p =
          [Some (pi - arcsin (- c)),
           Some (if arcsin (- c) < 0 then arcsin (- c) + 2 * pi else arcsin (- c))] \<and>
        rStag p = [Some R, Some R]"
      using on_surface_angles(1) [OF a1 a2] by simp
  qed
  have below: "c < - 1 \<longrightarrow> thetaStag p = [None, None] \<and> rStag p = [Some R, Some R]"
    using pc by (auto simp add: Let_def)
  have mid: "c = 1 \<longrightarrow> thetaStag p = [Some (3 * pi / 2)] \<and> rStag p = [Some R]"
    using pc by (auto simp add: Let_def)
  have high: "1 < c \<longrightarrow>
        thetaStag p = [Some (3 * pi / 2), Some (3 * pi / 2)] \<and>
        rStag p = [Some (t + sqrt (t\<^sup>2 - R\<^sup>2)), Some (t - sqrt (t\<^sup>2 - R\<^sup>2))]"
  proof
    assume a: "1 < c"
    have ct: "c = t / R" by (simp add: c_def t_def)
    have Rt: "R < t" using a assms(6) unfolding ct by (simp add: less_divide_eq)
    have sq: "R\<^sup>2 \<le> t\<^sup>2" using Rt assms(6) by (simp add: power_mono)
    have n: "\<not> c < 1" "c \<noteq> 1" using a by linarith+
    show "thetaStag p = [Some (3 * pi / 2), Some (3 * pi / 2)] \<and>
        rStag p = [Some (t + sqrt (t\<^sup>2 - R\<^sup>2)), Some (t - sqrt (t\<^sup>2 - R\<^sup>2))]"
      using pc n sq by (auto simp add: Let_def)
  qed
  show ?thesis
    using out below low mid high on_surface_angles(2-5) [of c] by simp
qed

lemma stagnation_points_regimes_examples:
  "(\<exists>out. plotRotatingCylinder (- 5, 5) (- 5, 5) 1 1 0 = Inr out \<and>
      thetaStag (stag out) = [Some pi, Some 0] \<and> rStag (stag out) = [Some 1, Some 1])
   \<and> (\<exists>out. plotRotatingCylinder (- 5, 5) (- 5, 5) 1 1 (4 * pi) = Inr out \<and>
      thetaStag (stag out) = [Some (3 * pi / 2)] \<and> rStag (stag out) = [Some 1])
   \<and> (\<exists>out. plotRotatingCylinder (- 5, 5) (- 5, 5) 1 1 (8 * pi) = Inr out \<and>
      thetaStag (stag out) = [Some (3 * pi / 2), Some (3 * pi / 2)] \<and>
      rStag (stag out) = [Some (2 + sqrt 3), Some (2 - sqrt 3)])
   \<and> \<bar>2 + sqrt 3 - 3732 / 1000\<bar> < 1 / 1000 \<and> \<bar>2 - sqrt 3 - 268 / 1000\<bar> < 1 / 1000"
proof -
  have "\<bar>2 + sqrt 3 - 3732 / 1000\<bar> < 1 / 1000" "\<bar>2 - sqrt 3 - 268 / 1000\<bar> < 1 / 1000"
    using sqrt3_bounds by simp_all
  then show ?thesis
    using stagnation_points_regimes [of "(- 5, 5)" "(- 5, 5)" 1 1 0]
      stagnation_points_regimes [of "(- 5, 5)" "(- 5, 5)" 1 1 "4 * pi"]
      stagnation_points_regimes [of "(- 5, 5)" "(- 5, 5)" 1 1 "8 * pi"]
    by auto
qed

subsection \<open>Claims\<close>

text \<open>
  Claim C3. An input with \<open>Lx[0] > Lx[1]\<close>, \<open>Ly[0] > Ly[1]\<close>, \<open>Vinf < 0\<close> or
  \<open>cylinderRadius < 0\<close> is rejected by the sanity check with a \<open>ValueError\<close>, and the
  call returns that error and no field. Conversely an input that satisfies the four
  conditions passes the sanity check, and the call never ends in a \<open>ValueError\<close>: the four
  checks are the only validation.
\<close>

theorem sanity_check_fails_fast:
  "(fst Lx > snd Lx \<or> fst Ly > snd Ly \<or> Vinf < 0 \<or> R < 0 \<longrightarrow>
      (\<exists>msg. sanity_check Lx Ly Vinf R = Inl (ValueError msg) \<and>
             plotRotatingCylinder Lx Ly Vinf R strength = Inl (ValueError msg)))
   \<and> (fst Lx \<le> snd Lx \<and> fst Ly \<le> snd Ly \<and> 0 \<le> Vinf \<and> 0 \<le> R \<longrightarrow>
      sanity_check Lx Ly Vinf R = Inr () \<and>
      (\<forall>msg. plotRotatingCylinder Lx Ly Vinf R strength \<noteq> Inl (ValueError msg)))"
proof (intro conjI impI)
  assume "fst Lx > snd Lx \<or> fst Ly > snd Ly \<or> Vinf < 0 \<or> R < 0"
  then obtain msg where "sanity_check Lx Ly Vinf R = Inl (ValueError msg)"
    using sanity_check_invalid by blast
  then show "\<exists>msg. sanity_check Lx Ly Vinf R = Inl (ValueError msg) \<and>
             plotRotatingCylinder Lx Ly Vinf R strength = Inl (ValueError msg)"
    by (simp add: plotRotatingCylinder_def)
next
  assume v: "fst Lx \<le> snd Lx \<and> fst Ly \<le> snd Ly \<and> 0 \<le> Vinf \<and> 0 \<le> R"
  then show ok: "sanity_check Lx Ly Vinf R = Inr ()"
    by (simp add: sanity_check_valid)
  show "\<forall>msg. plotRotatingCylinder Lx Ly Vinf R strength \<noteq> Inl (ValueError msg)"
    by (auto simp add: plotRotatingCylinder_def ok surface_fields_def stagnation_points_def
        py_div_def Let_def split: sum.splits if_splits)
qed

theorem sanity_check_fails_fast_witness:
  "plotRotatingCylinder (5, - 5) (- 5, 5) 1 1 0 =
     Inl (ValueError ''Domain endpoints incorrectly defined: Lx[0] > Lx[1]'')
   \<and> plotRotatingCylinder (- 5, 5) (- 5, 5) (- 1) 1 0 =
     Inl (ValueError ''Freestream Velocity Magnitude is negative!'')
   \<and> sanity_check (- 5, 5) (- 5, 5) 1 1 = Inr ()
   \<and> plotRotatingCylinder (- 5, 5) (- 5, 5) 1 1 0 \<noteq> Inl (ValueError ''Cylinder radius is negative!'')"
  using sanity_check_fails_fast [of "(5, - 5)" "(- 5, 5)" 1 1 0]
    sanity_check_fails_fast [of "(- 5, 5)" "(- 5, 5)" "- 1" 1 0]
    sanity_check_fails_fast [of "(- 5, 5)" "(- 5, 5)" 1 1 0]
  by (simp add: sanity_check_def)

text \<open>
  Claim C10. With \<open>Vinf > 0\<close>, \<open>R > 0\<close> and \<open>condition = strength/(4*pi*Vinf*R) > 1\<close>
  the solver returns two stagnation points at \<open>theta = 3*pi/2\<close> with radii
  \<open>r1 = t + sqrt(t^2 - R^2)\<close> and \<open>r2 = t - sqrt(t^2 - R^2)\<close>, \<open>t = strength/(4*pi*Vinf)\<close>.
  The square root is real, the circulation is positive, \<open>r1 * r2 = R^2\<close> and
  \<open>r1 > R > r2 > 0\<close>: exactly one of the two points is strictly inside the body.
\<close>

theorem off_surface_stagnation_radii:
  assumes "fst Lx \<le> snd Lx" "fst Ly \<le> snd Ly" "0 < Vinf" "0 < R"
    and "1 < strength / (4 * pi * Vinf * R)"
  shows "\<exists>out r1 r2.
     plotRotatingCylinder Lx Ly Vinf R strength = Inr out \<and>
     thetaStag (stag out) = [Some (3 * pi / 2), Some (3 * pi / 2)] \<and>
     rStag (stag out) = [Some r1, Some r2] \<and>
     r1 = strength / (4 * pi * Vinf) + sqrt ((strength / (4 * pi * Vinf))\<^sup>2 - R\<^sup>2) \<and>
     r2 = strength / (4 * pi * Vinf) - sqrt ((strength / (4 * pi * Vinf))\<^sup>2 - R\<^sup>2) \<and>
     R\<^sup>2 \<le> (strength / (4 * pi * Vinf))\<^sup>2 \<and> 0 < strength \<and>
     r1 * r2 = R\<^sup>2 \<and> R < r1 \<and> r2 < R \<and> 0 < r2"
proof -
  define t where "t = strength / (4 * pi * Vinf)"
  have c: "strength / (4 * pi * Vinf * R) = t / R"
    by (simp add: t_def)
  have Rt: "R < t"
    using assms(4,5) unfolding c by (simp add: less_divide_eq)
  have tpos: "0 < t" using Rt assms(4) by linarith
  have spos: "0 < strength"
  proof -
    have "strength = t * (4 * pi * Vinf)" using assms(3) by (simp add: t_def)
    then show ?thesis using tpos assms(3) by simp
  qed
  have sq: "R\<^sup>2 \<le> t\<^sup>2" using Rt assms(4) by (simp add: power_mono)
  obtain s p where p: "stagnation_points Vinf R strength = Inr p"
    and out: "plotRotatingCylinder Lx Ly Vinf R strength =
       Inr \<lparr>grid = grid_fields Lx Ly Vinf R strength, surface = s, stag = p,
            body_contour = True, stagnation_markers = True\<rparr>"
    using plotRotatingCylinder_ok [OF assms(1-4), of strength] by blast
  have one: "1 < t / R" using assms(5) unfolding c .
  have nlt: "\<not> t / R < 1" "t / R \<noteq> 1" using one by linarith+
  have pv: "thetaStag p = [Some (3 * pi / 2), Some (3 * pi / 2)]"
    "rStag p = [Some (t + sqrt (t\<^sup>2 - R\<^sup>2)), Some (t - sqrt (t\<^sup>2 - R\<^sup>2))]"
    using p sq nlt unfolding stagnation_points_cases [OF assms(3,4)] c t_def [symmetric]
    by (auto simp add: Let_def)
  show ?thesis
    unfolding t_def [symmetric]
    using out pv sq spos off_surface_radii [OF assms(4) Rt] by simp
qed

theorem off_surface_stagnation_radii_witness:
  "\<exists>out. plotRotatingCylinder (- 5, 5) (- 5, 5) 1 1 (8 * pi) = Inr out \<and>
     rStag (stag out) = [Some (2 + sqrt 3), Some (2 - sqrt 3)] \<and>
     (2 + sqrt 3) * (2 - sqrt 3) = 1 \<and> 1 < 2 + sqrt 3 \<and> 2 - sqrt 3 < 1 \<and> 0 < 2 - sqrt 3"
  using off_surface_stagnation_radii [of "(- 5, 5)" "(- 5, 5)" 1 1 "8 * pi"]
  by auto

text \<open>
  Claim C2 fails on the code. The branch \<open>condition < 1\<close> is also taken below \<open>-1\<close>, where
  \<open>np.arcsin(-condition)\<close> is \<open>nan\<close>: at \<open>R = 1\<close>, \<open>Vinf = 1\<close>, \<open>strength = -8*pi\<close> the
  condition is \<open>-2\<close>, the call returns, and both stagnation angles are \<open>nan\<close>, at radii
  \<open>R, R\<close>, not values in \<open>[0, 2*pi)\<close> as the source comment on the wrap-around says. The mirror
  input \<open>strength = 8*pi\<close> is handled by the branch \<open>condition > 1\<close>, which has no
  counterpart for \<open>condition < -1\<close>.
\<close>

theorem stagnation_nan_below_minus_one:
  "(- 8 * pi) / (4 * pi * 1 * 1) = (- 2::real)
   \<and> \<not> isl (plotRotatingCylinder (- 5, 5) (- 5, 5) 1 1 (- 8 * pi))
   \<and> thetaStag (stag (projr (plotRotatingCylinder (- 5, 5) (- 5, 5) 1 1 (- 8 * pi)))) = [None, None]
   \<and> rStag (stag (projr (plotRotatingCylinder (- 5, 5) (- 5, 5) 1 1 (- 8 * pi)))) = [Some 1, Some 1]
   \<and> thetaStag (stag (projr (plotRotatingCylinder (- 5, 5) (- 5, 5) 1 1 (8 * pi)))) =
       [Some (3 * pi / 2), Some (3 * pi / 2)]
   \<and> rStag (stag (projr (plotRotatingCylinder (- 5, 5) (- 5, 5) 1 1 (8 * pi)))) =
       [Some (2 + sqrt 3), Some (2 - sqrt 3)]"
proof -
  have p: "stagnation_points 1 1 (- (8 * pi)) =
      Inr \<lparr>thetaStag = [None, None], rStag = [Some 1, Some 1],
           xStag = [None, None], yStag = [None, None]\<rparr>"
    by (simp add: stagnation_points_def py_div_def)
  have c: "(- 8 * pi) / (4 * pi * 1 * 1) = (- 2::real)" by simp
  have neg: "plotRotatingCylinder (- 5, 5) (- 5, 5) 1 1 (- 8 * pi) =
      Inr \<lparr>grid = grid_fields (- 5, 5) (- 5, 5) 1 1 (- 8 * pi),
           surface = projr (surface_fields 1 1 (- 8 * pi)),
           stag = \<lparr>thetaStag = [None, None], rStag = [Some 1, Some 1],
                   xStag = [None, None], yStag = [None, None]\<rparr>,
           body_contour = True, stagnation_markers = True\<rparr>"
    by (simp add: plotRotatingCylinder_def sanity_check_def p surface_fields_ok Let_def)
  obtain out where pos: "plotRotatingCylinder (- 5, 5) (- 5, 5) 1 1 (8 * pi) = Inr out"
    and th: "thetaStag (stag out) = [Some (3 * pi / 2), Some (3 * pi / 2)]"
    and rs: "rStag (stag out) = [Some (2 + sqrt 3), Some (2 - sqrt 3)]"
    using stagnation_points_regimes_examples by blast
  show ?thesis
    using c neg pos th rs by simp
qed

text \<open>
  Claim C1. For a valid input the sanity check passes, and at every grid point \<open>(x, y)\<close>
  with \<open>r = sqrt(x^2+y^2) > 0\<close> the grid fields are finite and given by the closed forms
  \<open>Vr = (1 - R^2/r^2)*Vinf*cos(theta)\<close>,
  \<open>Vtheta = -(1 + R^2/r^2)*Vinf*sin(theta) - strength/(2*pi*r)\<close>,
  \<open>Vmag = sqrt(Vr^2 + Vtheta^2)\<close>, \<open>Vx = Vr*cos(theta) - Vtheta*sin(theta)\<close>,
  \<open>Vy = Vr*sin(theta) + Vtheta*cos(theta)\<close>,
  \<open>phi = Vinf*r*cos(theta)*(1 + R^2/r^2) - strength/(2*pi)*theta\<close> and, for \<open>R > 0\<close>,
  \<open>psi = Vinf*r*sin(theta)*(1 - R^2/r^2) + strength/(2*pi)*ln(r/R)\<close>, with
  \<open>theta = arctan2(y, x)\<close>; for \<open>R = 0\<close> the streamfunction is not finite. When
  \<open>Vinf > 0\<close> and \<open>R > 0\<close> the call returns, and its grid is this one.
\<close>

theorem grid_closed_forms:
  fixes Lx Ly :: "real \<times> real" and i j :: nat and Vinf R strength :: real
  defines "x \<equiv> linspace (fst Lx) (snd Lx) 50 ! i"
  defines "y \<equiv> linspace (fst Ly) (snd Ly) 50 ! j"
  defines "r \<equiv> sqrt (x * x + y * y)"
  defines "theta \<equiv> arctan2 y x"
  defines "g \<equiv> grid_fields Lx Ly Vinf R strength ! j ! i"
  defines "vr \<equiv> (1 - R\<^sup>2 / r\<^sup>2) * Vinf * cos theta"
  defines "vtheta \<equiv> - (1 + R\<^sup>2 / r\<^sup>2) * Vinf * sin theta - strength / (2 * pi * r)"
  assumes "fst Lx \<le> snd Lx" "fst Ly \<le> snd Ly" "0 \<le> Vinf" "0 \<le> R"
    and "i < 50" "j < 50" "0 < r"
  shows "sanity_check Lx Ly Vinf R = Inr () \<and>
     Vr g = Some vr \<and> Vtheta g = Some vtheta \<and>
     Vmag g = Some (sqrt (vr\<^sup>2 + vtheta\<^sup>2)) \<and>
     Vx g = Some (vr * cos theta - vtheta * sin theta) \<and>
     Vy g = Some (vr * sin theta + vtheta * cos theta) \<and>
     phi g = Some (Vinf * r * cos theta * (1 + R\<^sup>2 / r\<^sup>2) - strength / (2 * pi) * theta) \<and>
     (0 < R \<longrightarrow> psi g = Some (Vinf * r * sin theta * (1 - R\<^sup>2 / r\<^sup>2) +
                                   strength / (2 * pi) * ln (r / R))) \<and>
     (R = 0 \<longrightarrow> psi g = None) \<and>
     (0 < Vinf \<and> 0 < R \<longrightarrow>
        (\<exists>out. plotRotatingCylinder Lx Ly Vinf R strength = Inr out \<and>
               grid out = grid_fields Lx Ly Vinf R strength))"
proof -
  have g: "g = grid_point Vinf R strength x y"
    unfolding g_def x_def y_def using assms(12,13) by (rule grid_fields_nth)
  have r: "0 < sqrt (x * x + y * y)" using assms(14) unfolding r_def .
  note cf = grid_point_closed_form [OF r, where Vinf = Vinf and R = R and strength = strength,
      folded g r_def theta_def vr_def vtheta_def]
  have ret: "\<exists>out. plotRotatingCylinder Lx Ly Vinf R strength = Inr out \<and>
               grid out = grid_fields Lx Ly Vinf R strength" if "0 < Vinf" "0 < R"
    using plotRotatingCylinder_ok [OF assms(8,9) that, of strength] by auto
  have ok: "sanity_check Lx Ly Vinf R = Inr ()"
    using assms(8-11) by (rule sanity_check_valid)
  show ?thesis
    unfolding vr_def vtheta_def using ok cf ret by blast
qed

theorem grid_closed_forms_witness:
  "Vr (grid_fields (- 5, 5) (- 5, 5) 1 1 0 ! 49 ! 49) = Some ((1 - 1 / 50) * cos (arctan2 5 5))
   \<and> psi (grid_fields (- 5, 5) (- 5, 5) 1 1 0 ! 49 ! 49) =
       Some (sqrt 50 * sin (arctan2 5 5) * (1 - 1 / 50))
   \<and> psi (grid_fields (- 5, 5) (- 5, 5) 1 0 0 ! 49 ! 49) = None
   \<and> (\<exists>out. plotRotatingCylinder (- 5, 5) (- 5, 5) 1 1 0 = Inr out \<and>
          grid out = grid_fields (- 5, 5) (- 5, 5) 1 1 0)"
  using grid_closed_forms [where Lx = "(- 5, 5)" and Ly = "(- 5, 5)" and Vinf = 1 and R = 1
        and i = 49 and j = 49 and strength = 0]
    grid_closed_forms [where Lx = "(- 5, 5)" and Ly = "(- 5, 5)" and Vinf = 1 and R = 0
        and i = 49 and j = 49 and strength = 0]
  by (simp add: linspace_nth)

text \<open>
  Claim C8 (as amended). For \<open>Vinf > 0\<close> and \<open>R > 0\<close> the surface is sampled at 250 angles
  \<open>theta_i = 2*pi*i/249\<close>, \<open>i = 0..249\<close>: equally spaced in the closed interval
  \<open>[0, 2*pi]\<close>, both ends included, at the fixed radius \<open>R\<close>
  (\<open>xS = R*cos(theta)\<close>, \<open>yS = R*sin(theta)\<close>). The count 250 is a constant of the
  function body, not a parameter.
\<close>

theorem surface_samples:
  assumes "fst Lx \<le> snd Lx" "fst Ly \<le> snd Ly" "0 < Vinf" "0 < R"
  shows "\<exists>out. plotRotatingCylinder Lx Ly Vinf R strength = Inr out \<and>
     length (surface out) = 250 \<and>
     (\<forall>i<250. thetaS (surface out ! i) = 2 * pi * real i / 249 \<and>
              0 \<le> thetaS (surface out ! i) \<and> thetaS (surface out ! i) \<le> 2 * pi \<and>
              xS (surface out ! i) = R * cos (thetaS (surface out ! i)) \<and>
              yS (surface out ! i) = R * sin (thetaS (surface out ! i))) \<and>
     thetaS (surface out ! 0) = 0 \<and> thetaS (surface out ! 249) = 2 * pi"
proof -
  obtain out where out: "plotRotatingCylinder Lx Ly Vinf R strength = Inr out"
    and s: "surface_fields Vinf R strength = Inr (surface out)"
    using plotRotatingCylinder_surface [OF assms, of strength] by blast
  have R: "R \<noteq> 0" using assms(4) by simp
  have nth: "surface out ! i = surface_point Vinf R (strength / (2 * pi * R))
               (2 * pi * real i / 249) R" if "i < 250" for i
    using surface_nth [OF R that s] surface_theta_nth [OF that] by simp
  have th: "thetaS (surface out ! i) = 2 * pi * real i / 249"
    and xy: "xS (surface out ! i) = R * cos (thetaS (surface out ! i))"
      "yS (surface out ! i) = R * sin (thetaS (surface out ! i))" if "i < 250" for i
    using nth [OF that] by (simp_all add: surface_point_def Let_def)
  have rng: "0 \<le> 2 * pi * real i / 249 \<and> 2 * pi * real i / 249 \<le> 2 * pi" if "i < 250" for i
  proof -
    have "real i \<le> 249" using that by simp
    then have "2 * pi * real i \<le> 2 * pi * 249"
      by (intro mult_left_mono) simp_all
    then show ?thesis by simp
  qed
  have "length (surface out) = 250" using surface_length [OF R s] .
  moreover have "\<forall>i<250. thetaS (surface out ! i) = 2 * pi * real i / 249 \<and>
              0 \<le> thetaS (surface out ! i) \<and> thetaS (surface out ! i) \<le> 2 * pi \<and>
              xS (surface out ! i) = R * cos (thetaS (surface out ! i)) \<and>
              yS (surface out ! i) = R * sin (thetaS (surface out ! i))"
  proof (intro allI impI)
    fix i :: nat
    assume i: "i < 250"
    show "thetaS (surface out ! i) = 2 * pi * real i / 249 \<and>
              0 \<le> thetaS (surface out ! i) \<and> thetaS (surface out ! i) \<le> 2 * pi \<and>
              xS (surface out ! i) = R * cos (thetaS (surface out ! i)) \<and>
              yS (surface out ! i) = R * sin (thetaS (surface out ! i))"
      using xy [OF i] rng [OF i] unfolding th [OF i] by blast
  qed
  moreover have "thetaS (surface out ! 0) = 0" using th [of 0] by simp
  moreover have "thetaS (surface out ! 249) = 2 * pi" using th [of 249] by simp
  ultimately show ?thesis using out by blast
qed

theorem surface_samples_witness:
  "\<exists>out. plotRotatingCylinder (- 5, 5) (- 5, 5) 1 1 0 = Inr out \<and>
     length (surface out) = 250 \<and>
     thetaS (surface out ! 0) = 0 \<and> thetaS (surface out ! 249) = 2 * pi \<and>
     xS (surface out ! 249) = cos (2 * pi)"
  using surface_samples [of "(- 5, 5)" "(- 5, 5)" 1 1 0]
  by auto

text \<open>
  The half-open interval of the claim fails at the last sample: \<open>np.linspace(0, 2*np.pi, n)\<close>
  includes its end point, so sample 249 of the call with \<open>Vinf = 1\<close>, \<open>R = 1\<close>,
  \<open>strength = 0\<close> is \<open>2*pi\<close> itself.
\<close>

theorem surface_samples_counterexample:
  "\<not> isl (plotRotatingCylinder (- 5, 5) (- 5, 5) 1 1 0)
   \<and> thetaS (surface (projr (plotRotatingCylinder (- 5, 5) (- 5, 5) 1 1 0)) ! 249) = 2 * pi
   \<and> \<not> thetaS (surface (projr (plotRotatingCylinder (- 5, 5) (- 5, 5) 1 1 0)) ! 249) < 2 * pi"
proof -
  obtain s p where s: "surface_fields 1 1 0 = Inr s"
    and out: "plotRotatingCylinder (- 5, 5) (- 5, 5) 1 1 0 =
       Inr \<lparr>grid = grid_fields (- 5, 5) (- 5, 5) 1 1 0, surface = s, stag = p,
            body_contour = True, stagnation_markers = True\<rparr>"
    using plotRotatingCylinder_ok [of "(- 5, 5)" "(- 5, 5)" 1 1 0] by auto
  have "thetaS (s ! 249) = 2 * pi"
    using surface_nth [of 1 249 1 0 s] s by (simp add: surface_point_def Let_def)
  then show ?thesis using out by simp
qed

text \<open>
  Claim C9. For \<open>strength = 0\<close>, \<open>Vinf > 0\<close> and \<open>R > 0\<close> the surface samples are
  \<open>surface_point Vinf R 0 theta R\<close>, whose pressure coefficient is
  \<open>Cp(theta) = 1 - Vmag(R, theta)^2 / Vinf^2 = 1 - 4*sin(theta)^2\<close>. It is symmetric about the
  x-axis, \<open>Cp(theta) = Cp(-theta) = Cp(2*pi - theta)\<close>, and so is the sampled array:
  sample \<open>i\<close> and sample \<open>249 - i\<close> carry the same value.
\<close>

theorem surface_Cp_symmetric:
  fixes Vinf R th :: real
  assumes "0 < Vinf" "0 < R"
  shows "(\<exists>s. surface_fields Vinf R 0 = Inr s \<and>
            s = map (\<lambda>th. surface_point Vinf R 0 th R) (linspace 0 (2 * pi) 250) \<and>
            (\<forall>i<250. CpS (s ! i) = CpS (s ! (249 - i)))) \<and>
     (\<exists>vm. VmagS (surface_point Vinf R 0 th R) = Some vm \<and>
            CpS (surface_point Vinf R 0 th R) = Some (1 - vm\<^sup>2 / Vinf\<^sup>2)) \<and>
     CpS (surface_point Vinf R 0 th R) = Some (1 - 4 * (sin th)\<^sup>2) \<and>
     CpS (surface_point Vinf R 0 th R) = CpS (surface_point Vinf R 0 (- th) R) \<and>
     CpS (surface_point Vinf R 0 th R) = CpS (surface_point Vinf R 0 (2 * pi - th) R)"
proof -
  note cp = surface_point_Cp_no_circulation [OF assms]
  have R: "R \<noteq> 0" using assms(2) by simp
  have s: "surface_fields Vinf R 0 =
      Inr (map (\<lambda>th. surface_point Vinf R 0 th R) (linspace 0 (2 * pi) 250))"
    using surface_fields_ok [OF R, of Vinf 0] by simp
  have nth: "map (\<lambda>th. surface_point Vinf R 0 th R) (linspace 0 (2 * pi) 250) ! i =
      surface_point Vinf R 0 (2 * pi * real i / 249) R" if "i < 250" for i
    using surface_nth [OF R that s] surface_theta_nth [OF that] by simp
  have mirror: "CpS (map (\<lambda>th. surface_point Vinf R 0 th R) (linspace 0 (2 * pi) 250) ! i) =
      CpS (map (\<lambda>th. surface_point Vinf R 0 th R) (linspace 0 (2 * pi) 250) ! (249 - i))"
    if "i < 250" for i
  proof -
    have j: "249 - i < 250" by simp
    show ?thesis
      unfolding nth [OF that] nth [OF j] cp surface_theta_mirror [OF that]
      by (simp only: sin_mirror_sq)
  qed
  have vm: "\<exists>vm. VmagS (surface_point Vinf R 0 th R) = Some vm \<and>
            CpS (surface_point Vinf R 0 th R) = Some (1 - vm\<^sup>2 / Vinf\<^sup>2)"
  proof -
    have "VmagS (surface_point Vinf R 0 th R) = Some \<bar>2 * Vinf * sin th\<bar>"
      using assms by (rule surface_point_Vmag_no_circulation)
    moreover have "1 - 4 * (sin th)\<^sup>2 = 1 - \<bar>2 * Vinf * sin th\<bar>\<^sup>2 / Vinf\<^sup>2"
      using assms by (simp add: power_mult_distrib)
    ultimately show ?thesis using cp [of th] by simp
  qed
  have m1: "CpS (surface_point Vinf R 0 th R) = CpS (surface_point Vinf R 0 (- th) R)"
    unfolding cp by simp
  have m2: "CpS (surface_point Vinf R 0 th R) = CpS (surface_point Vinf R 0 (2 * pi - th) R)"
    unfolding cp by (simp only: sin_mirror_sq)
  show ?thesis
    using s mirror vm cp [of th] m1 m2 by blast
qed

theorem surface_Cp_symmetric_witness:
  "CpS (surface_point 1 1 0 0 1) = Some 1
   \<and> CpS (surface_point 1 1 0 pi 1) = Some 1
   \<and> CpS (surface_point 1 1 0 (pi / 2) 1) = Some (- 3)
   \<and> CpS (surface_point 1 1 0 (pi / 2) 1) = CpS (surface_point 1 1 0 (- (pi / 2)) 1)
   \<and> (\<exists>s. surface_fields 1 1 0 = Inr s \<and> CpS (s ! 0) = CpS (s ! 249))"
proof -
  have h: "(0::real) < 1" by simp
  have a: "CpS (surface_point 1 1 0 0 1) = Some 1"
    using surface_Cp_symmetric [OF h h, where th = 0] by simp
  have b: "CpS (surface_point 1 1 0 pi 1) = Some 1"
    using surface_Cp_symmetric [OF h h, where th = pi] by simp
  have c: "CpS (surface_point 1 1 0 (pi / 2) 1) = Some (- 3)"
    using surface_Cp_symmetric [OF h h, where th = "pi / 2"] by simp
  have d: "CpS (surface_point 1 1 0 (pi / 2) 1) = CpS (surface_point 1 1 0 (- (pi / 2)) 1)"
    using surface_Cp_symmetric [OF h h, where th = "pi / 2"] by blast
  obtain s where s: "surface_fields 1 1 0 = Inr s"
    and m: "\<forall>i<250. CpS (s ! i) = CpS (s ! (249 - i))"
    using surface_Cp_symmetric [OF h h, where th = 0] by blast
  have "CpS (s ! 0) = CpS (s ! 249)" using m [rule_format, of 0] by simp
  then show ?thesis using a b c d s by blast
qed

text \<open>
  Claim C4 fails on the code. The stagnation computation is not guarded: with plain Python
  numbers, \<open>cylinderRadius = 0\<close> makes \<open>strength/(2*np.pi*cylinderRadius)\<close> raise
  \<open>ZeroDivisionError\<close> in the surface evaluation, and \<open>Vinf = 0\<close> makes
  \<open>strength/(4*np.pi*Vinf*cylinderRadius)\<close> raise it in the stagnation computation. Both
  inputs pass the sanity check, and the call returns the error and no field.
\<close>

theorem degenerate_input_raises:
  "sanity_check (- 5, 5) (- 5, 5) 1 0 = Inr ()
   \<and> plotRotatingCylinder (- 5, 5) (- 5, 5) 1 0 0 = Inl ZeroDivisionError
   \<and> sanity_check (- 5, 5) (- 5, 5) 0 1 = Inr ()
   \<and> surface_fields 0 1 0 \<noteq> Inl ZeroDivisionError
   \<and> plotRotatingCylinder (- 5, 5) (- 5, 5) 0 1 0 = Inl ZeroDivisionError"
  by (simp add: plotRotatingCylinder_def sanity_check_def surface_fields_def
      stagnation_points_def py_div_def Let_def)

text \<open>
  Claim C6. For a non-empty collection \<open>draw\<close> reaches the loop, and after it the running
  free-stream vector is the sum of \<open>(u, v)\<close> over the elements of type \<open>Uniform\<close>; the
  free-stream speed squared used for \<open>Cp\<close> is \<open>(sum u)^2 + (sum v)^2\<close>, or \<open>1\<close> when that
  value is zero (no Uniform element, or a cancelling combination); it is never zero, and
  \<open>Cp = 1 - (x_vels^2 + y_vels^2)/V2_infty\<close> elementwise.
\<close>

theorem free_stream_normalisation:
  fixes objects :: "(string \<times> element) list"
  defines "U \<equiv> sum_list (map u (filter (\<lambda>ob. etype ob = ''Uniform'') (map snd objects)))"
  defines "V \<equiv> sum_list (map v (filter (\<lambda>ob. etype ob = ''Uniform'') (map snd objects)))"
  assumes "objects \<noteq> []"
  shows "\<exists>out. draw objects x_points y_points = Some out \<and>
     u_cumulative out = U \<and> v_cumulative out = V \<and>
     V2_infty out = (if U\<^sup>2 + V\<^sup>2 = 0 then 1 else U\<^sup>2 + V\<^sup>2) \<and>
     V2_infty out \<noteq> 0 \<and>
     Cp out = map2 (\<lambda>a b. np_sub (Some 1) (np_div (np_add (np_mul a a) (np_mul b b))
                                               (Some (V2_infty out))))
                (x_vels out) (y_vels out)"
proof -
  define points where "points = draw_points x_points y_points"
  define out where "out = foldl (draw_step points) (draw_init points) (map snd objects)"
  have d: "draw objects x_points y_points = Some out"
    unfolding out_def points_def using assms(3) by (rule draw_nonempty)
  have uc: "u_cumulative out = U"
    unfolding out_def U_def foldl_draw_step_u_cumulative by (simp add: draw_init_def)
  have vc: "v_cumulative out = V"
    unfolding out_def V_def foldl_draw_step_v_cumulative by (simp add: draw_init_def)
  have "V2_infty out =
     (if (u_cumulative out)\<^sup>2 + (v_cumulative out)\<^sup>2 = 0 then 1
      else (u_cumulative out)\<^sup>2 + (v_cumulative out)\<^sup>2)"
    unfolding out_def by (rule foldl_draw_step_V2_infty) (simp add: draw_init_def)
  then have V2: "V2_infty out = (if U\<^sup>2 + V\<^sup>2 = 0 then 1 else U\<^sup>2 + V\<^sup>2)"
    unfolding uc vc .
  have nz: "V2_infty out \<noteq> 0"
    unfolding V2 by (simp del: sum_power2_eq_zero_iff)
  have ne: "map snd objects \<noteq> []" using assms(3) by simp
  have cp: "Cp out = map2 (\<lambda>a b. np_sub (Some 1) (np_div (np_add (np_mul a a) (np_mul b b))
                                               (Some (V2_infty out))))
                (x_vels out) (y_vels out)"
    unfolding out_def using ne by (rule foldl_draw_step_Cp)
  show ?thesis
    using d uc vc V2 nz cp by blast
qed

theorem free_stream_normalisation_witness:
  "(\<exists>out. draw [(''a'', Uniform 3 4), (''b'', Doublet 1 0 (0, 0)), (''c'', Uniform 1 (- 1))] [1] [2] =
            Some out \<and> u_cumulative out = 4 \<and> v_cumulative out = 3 \<and> V2_infty out = 25)
   \<and> (\<exists>out. draw [(''a'', Uniform 3 4), (''b'', Uniform (- 3) (- 4))] [1] [2] = Some out \<and>
            u_cumulative out = 0 \<and> v_cumulative out = 0 \<and> V2_infty out = 1)
   \<and> (\<exists>out. draw [(''b'', Doublet 1 0 (0, 0))] [1] [2] = Some out \<and> V2_infty out = 1)"
  using free_stream_normalisation
      [of "[(''a'', Uniform 3 4), (''b'', Doublet 1 0 (0, 0)), (''c'', Uniform 1 (- 1))]" "[1]" "[2]"]
    free_stream_normalisation [of "[(''a'', Uniform 3 4), (''b'', Uniform (- 3) (- 4))]" "[1]" "[2]"]
    free_stream_normalisation [of "[(''b'', Doublet 1 0 (0, 0))]" "[1]" "[2]"]
  by (auto simp add: Uniform_def Doublet_def)

text \<open>
  Claim C7 (as amended). For a collection holding exactly one Uniform element \<open>(U, V)\<close> the
  aggregated velocity is \<open>(U, V)\<close> at every query point. The pressure coefficient is \<open>0\<close>
  at every query point when \<open>(U, V)\<close> is not \<open>(0, 0)\<close>; for \<open>U = V = 0\<close> the substituted
  denominator is \<open>1\<close> and the pressure coefficient is \<open>1\<close> at every query point.
\<close>

theorem single_uniform_field:
  fixes U V :: real and x_points y_points :: "real list"
  defines "points \<equiv> draw_points x_points y_points"
  shows "\<exists>out. draw [(name, Uniform U V)] x_points y_points = Some out \<and>
     length points = length x_points * length y_points \<and>
     x_vels out = map (\<lambda>p. Some U) points \<and>
     y_vels out = map (\<lambda>p. Some V) points \<and>
     ((U, V) \<noteq> (0, 0) \<longrightarrow> Cp out = map (\<lambda>p. Some 0) points) \<and>
     ((U, V) = (0, 0) \<longrightarrow> V2_infty out = 1 \<and> Cp out = map (\<lambda>p. Some 1) points)"
proof -
  define out where "out = draw_step points (draw_init points) (Uniform U V)"
  note f = draw_single_Uniform(1) [where name = name and U = U and V = V
        and x_points = x_points and y_points = y_points, folded points_def, folded out_def]
      draw_single_Uniform(2-5) [where U = U and V = V
        and x_points = x_points and y_points = y_points, folded points_def, folded out_def]
  have sq: "U * U + V * V = U\<^sup>2 + V\<^sup>2"
    by (simp add: power2_eq_square)
  have a: "Cp out = map (\<lambda>p. Some 0) points" if "(U, V) \<noteq> (0, 0)"
  proof -
    have nz: "U\<^sup>2 + V\<^sup>2 \<noteq> 0" using that by auto
    have "V2_infty out = U\<^sup>2 + V\<^sup>2" using f(4) nz by (simp del: sum_power2_eq_zero_iff)
    then show ?thesis
      unfolding f(5) sq using nz by (simp del: sum_power2_eq_zero_iff)
  qed
  have b: "V2_infty out = 1 \<and> Cp out = map (\<lambda>p. Some 1) points" if "(U, V) = (0, 0)"
  proof -
    have v: "V2_infty out = 1" using f(4) that by simp
    show ?thesis
      unfolding f(5) v using that by simp
  qed
  have len: "length points = length x_points * length y_points"
    unfolding points_def by (rule length_draw_points)
  show ?thesis
    using f(1-3) a b len by blast
qed

theorem single_uniform_field_witness:
  "(\<exists>out. draw [(''a'', Uniform 3 4)] [0, 1] [2] = Some out \<and>
      x_vels out = [Some 3, Some 3] \<and> y_vels out = [Some 4, Some 4] \<and>
      Cp out = [Some 0, Some 0])
   \<and> (\<exists>out. draw [(''a'', Uniform 0 0)] [0, 1] [2] = Some out \<and>
      x_vels out = [Some 0, Some 0] \<and> V2_infty out = 1 \<and> Cp out = [Some 1, Some 1])"
  using single_uniform_field [where name = "''a''" and U = 3 and V = 4
        and x_points = "[0, 1]" and y_points = "[2]"]
    single_uniform_field [where name = "''a''" and U = 0 and V = 0
        and x_points = "[0, 1]" and y_points = "[2]"]
  by (auto simp add: draw_points_def meshgrid_def)

text \<open>
  The degenerate case of the claim fails: for the single element \<open>Uniform 0 0\<close> the velocity
  is zero, the denominator is replaced by \<open>1\<close>, and \<open>Cp = 1 - 0/1 = 1\<close>, not \<open>0\<close>.
\<close>

theorem single_uniform_field_counterexample:
  "map_option Cp (draw [(''a'', Uniform 0 0)] [0] [0]) = Some [Some 1]
   \<and> map_option Cp (draw [(''a'', Uniform 0 0)] [0] [0]) \<noteq> Some [Some 0]"
proof -
  have "Cp (draw_step (draw_points [0] [0]) (draw_init (draw_points [0] [0])) (Uniform 0 0)) =
      [Some 1]"
    unfolding draw_single_Uniform(5) draw_single_Uniform(4)
    by (simp add: draw_points_def meshgrid_def)
  then show ?thesis
    unfolding draw_single_Uniform(1) by simp
qed

text \<open>
  Claim C5 (as amended). At every query point with \<open>r = sqrt((x-x0)^2 + (y-y0)^2) > 0\<close> the
  contribution \<open>(du, dv, dphi, dpsi)\<close> of the Cylinder element is finite and equals the
  solver's grid fields \<open>Vx\<close>, \<open>Vy\<close>, \<open>phi\<close> for \<open>strength = 0\<close> at the point translated by
  \<open>(x0, y0)\<close>, and the solver's \<open>psi\<close> without its \<open>ln(r/R)\<close> term (which is \<open>psi\<close> itself
  when \<open>R > 0\<close>). Its velocity is the sum of the velocities of the uniform flow
  \<open>(Vinf, 0)\<close> and of the doublet of strength \<open>2*pi*Vinf*R^2\<close> at \<open>(x0, y0)\<close> with
  \<open>alpha = 0\<close>; its potential and streamfunction are the sums of theirs minus the
  constants \<open>Vinf*x0\<close> and \<open>Vinf*y0\<close>. No sign condition on \<open>Vinf\<close> or \<open>R\<close> is needed.
\<close>

theorem cylinder_element_contribution:
  fixes Vinf R x y x0 y0 :: real
  defines "self \<equiv> \<lparr>Vinfty = Vinf, radius = R, position = (x0, y0)\<rparr>"
  defines "r \<equiv> sqrt ((x - x0) * (x - x0) + (y - y0) * (y - y0))"
  defines "theta \<equiv> arctan2 (y - y0) (x - x0)"
  defines "g \<equiv> grid_point Vinf R 0 (x - x0) (y - y0)"
  defines "U \<equiv> Uniform Vinf 0"
  defines "D \<equiv> Doublet (2 * pi * Vinf * R\<^sup>2) 0 (x0, y0)"
  assumes "0 < r"
  shows "\<exists>du dv dphi dpsi.
     calculate_contribution self x y = (Some du, Some dv, Some dphi, Some dpsi) \<and>
     Vx g = Some du \<and> Vy g = Some dv \<and> phi g = Some dphi \<and>
     dpsi = Vinf * r * sin theta * (1 - R\<^sup>2 / r\<^sup>2) \<and>
     (0 < R \<longrightarrow> psi g = Some dpsi) \<and>
     np_add (get_x_velocity_at U (x, y)) (get_x_velocity_at D (x, y)) = Some du \<and>
     np_add (get_y_velocity_at U (x, y)) (get_y_velocity_at D (x, y)) = Some dv \<and>
     np_add (get_potential_at U (x, y)) (get_potential_at D (x, y)) = Some (dphi + Vinf * x0) \<and>
     np_add (get_streamfunction_at U (x, y)) (get_streamfunction_at D (x, y)) =
       Some (dpsi + Vinf * y0)"
proof -
  have r0: "0 < sqrt ((x - x0) * (x - x0) + (y - y0) * (y - y0))"
    using assms(7) unfolding r_def .
  have nz: "r \<noteq> 0" using assms(7) by simp
  note cv = calculate_contribution_value [OF r0, where Vinf = Vinf and R = R,
      folded r_def theta_def self_def]
  note dv = doublet_value [OF r0, where kappa = "2 * pi * Vinf * R\<^sup>2",
      folded r_def theta_def D_def]
  note gp = grid_point_closed_form [OF r0, where Vinf = Vinf and R = R and strength = 0,
      folded r_def theta_def g_def]
  note pol = arctan2_polar [OF r0, folded r_def theta_def]
  have cs: "cos theta * cos theta + sin theta * sin theta = 1"
    by (rule sin_cos_squared_add3)
  note alg = cylinder_superposition_algebra [OF nz cs, where V = Vinf and R = R]
  have q: "R\<^sup>2 / r\<^sup>2 = R / r * (R / r)"
    by (simp add: power2_eq_square)
  have g1: "Vx g = Some (Vinf * cos theta * (1 - R / r * (R / r)) * cos theta -
            - Vinf * sin theta * (1 + R / r * (R / r)) * sin theta)"
    unfolding gp(4) q by (simp add: algebra_simps)
  have g2: "Vy g = Some (Vinf * cos theta * (1 - R / r * (R / r)) * sin theta +
            - Vinf * sin theta * (1 + R / r * (R / r)) * cos theta)"
    unfolding gp(5) q by (simp add: algebra_simps)
  have g3: "phi g = Some (Vinf * r * cos theta * (1 + R / r * (R / r)))"
    unfolding gp(6) q by simp
  have g4: "psi g = Some (Vinf * r * sin theta * (1 - R / r * (R / r)))" if "0 < R"
    unfolding gp(7) [OF that] q by simp
  have u1: "np_add (get_x_velocity_at U (x, y)) (get_x_velocity_at D (x, y)) =
      Some (Vinf * cos theta * (1 - R / r * (R / r)) * cos theta -
            - Vinf * sin theta * (1 + R / r * (R / r)) * sin theta)"
    unfolding dv(1) alg(1) by (simp add: U_def Uniform_def)
  have u2: "np_add (get_y_velocity_at U (x, y)) (get_y_velocity_at D (x, y)) =
      Some (Vinf * cos theta * (1 - R / r * (R / r)) * sin theta +
            - Vinf * sin theta * (1 + R / r * (R / r)) * cos theta)"
    unfolding dv(2) alg(2) by (simp add: U_def Uniform_def)
  have u3: "np_add (get_potential_at U (x, y)) (get_potential_at D (x, y)) =
      Some (Vinf * r * cos theta * (1 + R / r * (R / r)) + Vinf * x0)"
    unfolding dv(3) alg(3) pol(1) by (simp add: U_def Uniform_def algebra_simps)
  have u4: "np_add (get_streamfunction_at U (x, y)) (get_streamfunction_at D (x, y)) =
      Some (Vinf * r * sin theta * (1 - R / r * (R / r)) + Vinf * y0)"
    unfolding dv(4) alg(4) pol(2) by (simp add: U_def Uniform_def algebra_simps)
  show ?thesis
    unfolding cv q using g1 g2 g3 g4 u1 u2 u3 u4 by simp
qed

theorem cylinder_element_contribution_witness:
  "calculate_contribution \<lparr>Vinfty = 1, radius = 1, position = (0, 0)\<rparr> 2 0 =
     (Some (3 / 4), Some 0, Some (5 / 2), Some 0)
   \<and> Vx (grid_point 1 1 0 2 0) = Some (3 / 4)
   \<and> phi (grid_point 1 1 0 2 0) = Some (5 / 2)
   \<and> np_add (get_x_velocity_at (Uniform 1 0) (2, 0))
        (get_x_velocity_at (Doublet (2 * pi * 1 * 1\<^sup>2) 0 (0, 0)) (2, 0)) = Some (3 / 4)
   \<and> np_add (get_potential_at (Uniform 1 0) (2, 0))
        (get_potential_at (Doublet (2 * pi * 1 * 1\<^sup>2) 0 (0, 0)) (2, 0)) = Some (5 / 2)"
proof -
  have c: "calculate_contribution \<lparr>Vinfty = 1, radius = 1, position = (0, 0)\<rparr> 2 0 =
     (Some (3 / 4), Some 0, Some (5 / 2), Some 0)"
    by (simp add: calculate_contribution_def Let_def arctan2_def)
  have r: "0 < sqrt ((2 - 0) * (2 - 0) + (0 - 0) * (0 - 0 :: real))"
    by simp
  show ?thesis
    using cylinder_element_contribution [OF r, where Vinf = 1 and R = 1] c
    by auto
qed

text \<open>
  The unqualified equality with the sum of the two elements fails for an element that is
  not at the origin: for \<open>Vinf = 1\<close>, \<open>R = 1\<close>, centre \<open>(1, 0)\<close> and query point \<open>(3, 0)\<close>
  the element gives \<open>dphi = 5/2\<close>, the uniform flow and the doublet together \<open>7/2\<close>.
\<close>

theorem cylinder_element_contribution_counterexample:
  "fst (snd (snd (calculate_contribution \<lparr>Vinfty = 1, radius = 1, position = (1, 0)\<rparr> 3 0))) =
     Some (5 / 2)
   \<and> np_add (get_potential_at (Uniform 1 0) (3, 0))
        (get_potential_at (Doublet (2 * pi * 1 * 1\<^sup>2) 0 (1, 0)) (3, 0)) = Some (7 / 2)"
  by (simp add: calculate_contribution_def Uniform_def Doublet_def Let_def arctan2_def)

end
